theory Spec2Isabelle
  imports Main "HOL-Library.Char_ord" "HOL-Library.List_Lexorder"
begin

chapter \<open>The embedding\<close>

section \<open>Python strings\<close>

text \<open>
  A Python \<open>str\<close> is a \<open>string\<close>. The pipeline's names, codes and identifiers are ASCII,
  and the string methods below are the ASCII fragment of Python's: \<open>upper\<close> and \<open>lower\<close>
  change the 26 letters only, \<open>strip\<close> removes the ASCII characters for which
  \<open>str.isspace\<close> holds. The order on strings (\<open>sort\<close>, \<open>sorted\<close>) is the lexicographic
  order on character codes, which is Python's order on \<open>str\<close>.
\<close>

definition ascii_lowercase :: string where
  "ascii_lowercase = ''abcdefghijklmnopqrstuvwxyz''"

definition ascii_uppercase :: string where
  "ascii_uppercase = ''ABCDEFGHIJKLMNOPQRSTUVWXYZ''"

definition upper_char :: "char \<Rightarrow> char" where
  "upper_char c = (case map_of (zip ascii_lowercase ascii_uppercase) c of Some u \<Rightarrow> u | None \<Rightarrow> c)"

definition lower_char :: "char \<Rightarrow> char" where
  "lower_char c = (case map_of (zip ascii_uppercase ascii_lowercase) c of Some l \<Rightarrow> l | None \<Rightarrow> c)"

definition py_upper :: "string \<Rightarrow> string" where
  "py_upper s = map upper_char s"

definition py_lower :: "string \<Rightarrow> string" where
  "py_lower s = map lower_char s"

definition is_space :: "char \<Rightarrow> bool" where
  "is_space c = (c \<in> set [CHR 0x20, CHR 0x09, CHR 0x0A, CHR 0x0B, CHR 0x0C, CHR 0x0D,
                            CHR 0x1C, CHR 0x1D, CHR 0x1E, CHR 0x1F])"

definition py_strip :: "string \<Rightarrow> string" where
  "py_strip s = rev (dropWhile is_space (rev (dropWhile is_space s)))"

definition startswith :: "string \<Rightarrow> string \<Rightarrow> bool" where
  "startswith s p = (take (length p) s = p)"

definition endswith :: "string \<Rightarrow> string \<Rightarrow> bool" where
  "endswith s p = (length p \<le> length s \<and> drop (length s - length p) s = p)"

text \<open>\<open>contains p s\<close> is Python's \<open>p in s\<close> on strings.\<close>

fun contains :: "string \<Rightarrow> string \<Rightarrow> bool" where
  "contains p [] = (p = [])"
| "contains p (c # cs) = (startswith (c # cs) p \<or> contains p cs)"

text \<open>
  The strings on which the functions above are Python's own: the ASCII ones. Beyond ASCII
  Python's \<open>strip\<close> also removes further spaces (U+0085, U+00A0, ...) and its \<open>upper\<close> and
  \<open>lower\<close> fold further letters, which these functions do not; every statement below that
  rests on them is made for ASCII text.
\<close>

definition is_ascii :: "string \<Rightarrow> bool" where
  "is_ascii s = list_all (\<lambda>c. (of_char c :: nat) < 128) s"

section \<open>policy.py\<close>

text \<open>
  The module defines \<open>get_duplicate_policy\<close> twice. Its body runs top to bottom and each
  \<open>def\<close> binds the name in the module's namespace, so the namespace is built by two
  successive updates; a caller (\<open>transformer.py\<close> imports the name) gets what the namespace
  holds once the module is loaded.
\<close>

definition ENTITY_POLICIES :: "(string \<times> string) list" where
  "ENTITY_POLICIES = [(''SERVICEORDERS'', ''skip'')]"

definition get_duplicate_policy_line16 :: "string \<Rightarrow> string" where
  "get_duplicate_policy_line16 entity =
     (case map_of ENTITY_POLICIES (py_upper entity) of Some p \<Rightarrow> p | None \<Rightarrow> ''error'')"

definition DUPLICATE_POLICY :: "(string \<times> string) list" where
  "DUPLICATE_POLICY =
     [(''CLUSTERS'', ''skip''), (''LOCATIONS'', ''skip''), (''SPVS'', ''skip''),
      (''PROJECTS'', ''skip''), (''PACKAGES'', ''skip''), (''PROJECTDEFINITIONS'', ''skip''),
      (''VENDORS'', ''skip''), (''SERVICEORDERS'', ''skip'')]"

definition get_duplicate_policy_line45 :: "string \<Rightarrow> string" where
  "get_duplicate_policy_line45 entity =
     (case map_of DUPLICATE_POLICY entity of Some p \<Rightarrow> p | None \<Rightarrow> ''skip'')"

definition policy_namespace :: "string \<rightharpoonup> (string \<Rightarrow> string)" where
  "policy_namespace =
     (Map.empty(''get_duplicate_policy'' \<mapsto> get_duplicate_policy_line16))
       (''get_duplicate_policy'' \<mapsto> get_duplicate_policy_line45)"

text \<open>A call of the imported name; \<open>None\<close> would be an \<open>ImportError\<close>.\<close>

definition get_duplicate_policy :: "string \<Rightarrow> string option" where
  "get_duplicate_policy entity =
     map_option (\<lambda>f. f entity) (policy_namespace ''get_duplicate_policy'')"

section \<open>cds\_parser.py: the dependency map\<close>

text \<open>
  The dictionaries \<open>parse_cds\<close> builds for a field, an association and an entity, as records.
  A Python \<open>dict\<close> whose iteration order matters is the list of its items, in that order.
\<close>

record field_def =
  field_name :: string
  field_type :: string
  field_key :: bool

record assoc_def =
  assoc_name :: string
  assoc_target :: string

record unique_def =
  unique_name :: string
  unique_columns :: "string list"

record entity_def =
  ent_fields :: "field_def list"
  ent_associations :: "assoc_def list"
  ent_uniqueConstraints :: "unique_def list"

text \<open>
  \<open>if t and t != ename and t not in targets: targets.append(t)\<close>, the guard both loops of
  \<open>build_dependencies\<close> put before an append.
\<close>

definition add_target :: "string \<Rightarrow> string list \<Rightarrow> string \<Rightarrow> string list" where
  "add_target ename targets t =
     (if t \<noteq> [] \<and> t \<noteq> ename \<and> t \<notin> set targets then targets @ [t] else targets)"

text \<open>The \<open>*_ID\<close> heuristic for one field: the first association named as the field's base.\<close>

definition id_heuristic :: "string \<Rightarrow> assoc_def list \<Rightarrow> string list \<Rightarrow> field_def \<Rightarrow> string list" where
  "id_heuristic ename assocs targets f =
     (let fname = field_name f in
      if endswith fname ''_ID'' \<and> startswith (py_upper (field_type f)) ''UUID'' then
        (let base = take (length fname - 3) fname in
         case find (\<lambda>a. assoc_name a = base) assocs of
           None \<Rightarrow> targets
         | Some a \<Rightarrow> add_target ename targets (assoc_target a))
      else targets)"

definition entity_targets :: "string \<Rightarrow> entity_def \<Rightarrow> string list" where
  "entity_targets ename edef =
     foldl (id_heuristic ename (ent_associations edef))
       (foldl (add_target ename) [] (map assoc_target (ent_associations edef)))
       (ent_fields edef)"

definition build_dependencies :: "(string \<times> entity_def) list \<Rightarrow> (string \<times> string list) list" where
  "build_dependencies ents = map (\<lambda>(ename, edef). (ename, entity_targets ename edef)) ents"

section \<open>Python values\<close>

text \<open>
  A spreadsheet cell, a YAML default and a cell of an output row hold \<open>None\<close>, a
  \<open>bool\<close>, an \<open>int\<close>, a \<open>str\<close>, a \<open>float\<close> or a \<open>datetime\<close>. A float is carried by its
  \<open>repr\<close> and a datetime by its \<open>str\<close>: the code reads both through \<open>str\<close>, and the library
  conversions that need more are parameters of the one function that calls them
  (\<open>validate_type\<close>).
\<close>

datatype pyval = PNone | PBool bool | PInt int | PStr string | PFloat string | PDatetime string

definition digit_char :: "nat \<Rightarrow> char" where
  "digit_char d = ''0123456789'' ! d"

fun str_of_nat :: "nat \<Rightarrow> string" where
  "str_of_nat n = (if n < 10 then [digit_char n] else str_of_nat (n div 10) @ [digit_char (n mod 10)])"

declare str_of_nat.simps [simp del]

definition str_of_int :: "int \<Rightarrow> string" where
  "str_of_int i = (if i < 0 then CHR ''-'' # str_of_nat (nat (- i)) else str_of_nat (nat i))"

fun py_str :: "pyval \<Rightarrow> string" where
  "py_str PNone = ''None''"
| "py_str (PBool b) = (if b then ''True'' else ''False'')"
| "py_str (PInt i) = str_of_int i"
| "py_str (PStr s) = s"
| "py_str (PFloat r) = r"
| "py_str (PDatetime d) = d"

text \<open>The truth value of an object, as \<open>if x:\<close> and \<open>x or y\<close> take it.\<close>

fun truthy :: "pyval \<Rightarrow> bool" where
  "truthy PNone = False"
| "truthy (PBool b) = b"
| "truthy (PInt i) = (i \<noteq> 0)"
| "truthy (PStr s) = (s \<noteq> [])"
| "truthy (PFloat r) = (r \<noteq> ''0.0'' \<and> r \<noteq> ''-0.0'')"
| "truthy (PDatetime d) = True"

text \<open>\<open>value is None or str(value).strip() == ''\<close>, the blank test used throughout.\<close>

definition is_blank :: "pyval \<Rightarrow> bool" where
  "is_blank v = (v = PNone \<or> py_strip (py_str v) = [])"

text \<open>
  A dictionary kept as the list of its items: \<open>d[k] = v\<close> replaces the value of a key that is
  there and appends a new key, as Python's insertion-ordered \<open>dict\<close> does.
\<close>

fun dict_set :: "('k \<times> 'v) list \<Rightarrow> 'k \<Rightarrow> 'v \<Rightarrow> ('k \<times> 'v) list" where
  "dict_set [] k v = [(k, v)]"
| "dict_set ((k', v') # d) k v = (if k' = k then (k, v) # d else (k', v') # dict_set d k v)"

type_synonym row = "string \<rightharpoonup> pyval"

text \<open>
  A row that \<open>csv.DictReader\<close> yields from a file whose records all have as many cells as
  the header (the files this pipeline writes): every column maps to a string.
\<close>

type_synonym csv_row = "string \<rightharpoonup> string"

section \<open>The built schema and the mapping configuration\<close>

record csv_info =
  info_file :: string
  info_columns :: "string list"

text \<open>An entity of \<open>schema.json\<close>; \<open>ent_csv\<close> is \<open>None\<close> when no CSV file was found for it.\<close>

record schema_entity = entity_def +
  ent_csv :: "csv_info option"

record schema =
  enums :: "string \<rightharpoonup> string list"
  entities :: "string \<rightharpoonup> schema_entity"
  ingestionOrder :: "string list"

text \<open>
  A match rule \<open>{field: ..., from: ...}\<close> and a lookup definition of \<open>mapping.yaml\<close>. The
  code reads their keys with \<open>.get\<close> and tests the result for truth, so a missing key and an
  empty string behave alike: the empty string stands for both.
\<close>

record match_rule =
  rule_field :: string
  rule_from :: string

record lookup_def =
  lookup_entity :: string
  lookup_match :: "match_rule list"
  lookup_optional :: bool

section \<open>fk\_resolver.py\<close>

text \<open>
  The resolver object. \<open>data_files\<close> and \<open>staging_files\<close> are what the files
  \<open>data_dir/CCTECH.DRS.ENTITIES-<entity>.csv\<close> and \<open>staging_dir/<entity>.csv\<close> hold, by
  entity (\<open>None\<close>: no such file); \<open>staging_files\<close> is \<open>None\<close> when the resolver was built
  without a staging directory. \<open>cache\<close> is the only field a call changes.
\<close>

record fk_resolver =
  data_files :: "string \<rightharpoonup> csv_row list"
  staging_files :: "(string \<rightharpoonup> csv_row list) option"
  resolver_schema :: schema
  cache :: "string \<rightharpoonup> csv_row list"

definition file_rows :: "(string \<rightharpoonup> csv_row list) \<Rightarrow> string \<Rightarrow> csv_row list" where
  "file_rows dir entity = (case dir entity of None \<Rightarrow> [] | Some rows \<Rightarrow> rows)"

definition load_entity_data :: "fk_resolver \<Rightarrow> string \<Rightarrow> csv_row list \<times> fk_resolver" where
  "load_entity_data self entity =
     (case cache self entity of
        Some rows \<Rightarrow> (rows, self)
      | None \<Rightarrow>
          (case entities (resolver_schema self) entity of
             None \<Rightarrow> ([], self)
           | Some entity_info \<Rightarrow>
               (case ent_csv entity_info of
                  None \<Rightarrow> ([], self)
                | Some _ \<Rightarrow>
                    (let rows = file_rows (data_files self) entity
                                @ (case staging_files self of
                                     None \<Rightarrow> []
                                   | Some staging \<Rightarrow> file_rows staging entity)
                     in (rows, self\<lparr>cache := (cache self)(entity \<mapsto> rows)\<rparr>)))))"

text \<open>One round of the loop that builds \<open>criteria\<close> from the match rules.\<close>

definition add_criterion :: "row \<Rightarrow> (string \<times> string) list \<Rightarrow> match_rule \<Rightarrow> (string \<times> string) list" where
  "add_criterion row_values criteria mf =
     (if rule_field mf \<noteq> [] \<and> rule_from mf \<noteq> [] then
        (case row_values (rule_from mf) of
           None \<Rightarrow> criteria
         | Some v \<Rightarrow>
             if v \<noteq> PNone \<and> py_strip (py_str v) \<noteq> []
             then dict_set criteria (rule_field mf) (py_strip (py_str v))
             else criteria)
      else criteria)"

definition build_criteria :: "match_rule list \<Rightarrow> row \<Rightarrow> (string \<times> string) list" where
  "build_criteria match_fields row_values = foldl (add_criterion row_values) [] match_fields"

text \<open>The body of the inner loop: does \<open>csv_row\<close> agree with one criterion?\<close>

definition criterion_matches :: "csv_row \<Rightarrow> string \<times> string \<Rightarrow> bool" where
  "criterion_matches csv_row c =
     (let field = fst c; v = snd c;
          csv_value = py_strip (case csv_row field of None \<Rightarrow> [] | Some x \<Rightarrow> x)
      in if endswith field ''_ID'' \<and> csv_value \<noteq> []
         then csv_value = v
         else py_upper csv_value = py_upper v)"

definition lookup_id ::
  "fk_resolver \<Rightarrow> string \<Rightarrow> match_rule list \<Rightarrow> row \<Rightarrow> string option \<times> fk_resolver" where
  "lookup_id self target_entity match_fields row_values =
     (let (data, self') = load_entity_data self target_entity in
      if data = [] then (None, self')
      else
        (let criteria = build_criteria match_fields row_values in
         if criteria = [] then (None, self')
         else
           (case find (\<lambda>csv_row. list_all (criterion_matches csv_row) criteria) data of
              None \<Rightarrow> (None, self')
            | Some csv_row \<Rightarrow> (csv_row ''ID'', self'))))"

text \<open>
  One round of the loop of \<open>resolve_all_fks\<close>, on the pair \<open>(resolved, self)\<close>.
\<close>

definition resolve_fk ::
  "row \<Rightarrow> (string \<times> string option) list \<times> fk_resolver \<Rightarrow> string \<times> lookup_def
    \<Rightarrow> (string \<times> string option) list \<times> fk_resolver" where
  "resolve_fk excel_row st item =
     (let resolved = fst st; self = snd st; fk_field = fst item; ldef = snd item in
      if lookup_entity ldef = [] then (resolved, self)
      else
        (case excel_row fk_field of
           Some v \<Rightarrow>
             if truthy v then (dict_set resolved fk_field (Some (py_strip (py_str v))), self)
             else
               (let (found_id, self') = lookup_id self (lookup_entity ldef) (lookup_match ldef) excel_row
                in (dict_set resolved fk_field found_id, self'))
         | None \<Rightarrow>
             (let (found_id, self') = lookup_id self (lookup_entity ldef) (lookup_match ldef) excel_row
              in (dict_set resolved fk_field found_id, self'))))"

definition resolve_all_fks ::
  "fk_resolver \<Rightarrow> string \<Rightarrow> (string \<times> lookup_def) list \<Rightarrow> row
    \<Rightarrow> (string \<times> string option) list \<times> fk_resolver" where
  "resolve_all_fks self entity lookups_config excel_row =
     foldl (resolve_fk excel_row) ([], self) lookups_config"

text \<open>
  The non-blank value a source row supplies for a match rule's source column, if any: the
  reading of the rule that the specification of \<open>lookup_id\<close> is stated in.
\<close>

definition rule_value :: "row \<Rightarrow> match_rule \<Rightarrow> string option" where
  "rule_value row_values mf =
     (case row_values (rule_from mf) of
        None \<Rightarrow> None
      | Some v \<Rightarrow> if is_blank v then None else Some (py_strip (py_str v)))"

text \<open>
  A rule counts when it names a field and a source column and the source row has a
  non-blank value for it; a row of the store matches the rules when it agrees with every
  rule that counts.
\<close>

definition rule_valued :: "row \<Rightarrow> match_rule \<Rightarrow> bool" where
  "rule_valued row_values mf =
     (rule_field mf \<noteq> [] \<and> rule_from mf \<noteq> [] \<and> rule_value row_values mf \<noteq> None)"

definition matches_rules :: "match_rule list \<Rightarrow> row \<Rightarrow> csv_row \<Rightarrow> bool" where
  "matches_rules match_fields row_values csv_row =
     list_all (\<lambda>mf. rule_valued row_values mf \<longrightarrow>
                 (case rule_value row_values mf of
                    None \<Rightarrow> True
                  | Some v \<Rightarrow> criterion_matches csv_row (rule_field mf, v)))
       match_fields"

text \<open>
  The values the rules read, in the source row and in the rows of the store, are ASCII.
\<close>

definition ascii_sources :: "match_rule list \<Rightarrow> row \<Rightarrow> bool" where
  "ascii_sources match_fields row_values =
     list_all (\<lambda>mf. case row_values (rule_from mf) of None \<Rightarrow> True | Some v \<Rightarrow> is_ascii (py_str v))
       match_fields"

definition ascii_cells :: "match_rule list \<Rightarrow> csv_row list \<Rightarrow> bool" where
  "ascii_cells match_fields data =
     list_all (\<lambda>csv_row.
        list_all (\<lambda>mf. case csv_row (rule_field mf) of None \<Rightarrow> True | Some cell \<Rightarrow> is_ascii cell)
          match_fields)
       data"

subsection \<open>A store with one vendor\<close>

definition vendors_schema :: schema where
  "vendors_schema =
     \<lparr>enums = Map.empty,
      entities = [''VENDORS'' \<mapsto>
        \<lparr>ent_fields = [], ent_associations = [], ent_uniqueConstraints = [],
         ent_csv = Some \<lparr>info_file = ''data/CCTECH.DRS.ENTITIES-VENDORS.csv'',
                         info_columns = [''ID'', ''CODE'', ''NAME'']\<rparr>\<rparr>],
      ingestionOrder = [''VENDORS'']\<rparr>"

definition vendors_resolver :: fk_resolver where
  "vendors_resolver =
     \<lparr>data_files = [''VENDORS'' \<mapsto>
        [[''ID'' \<mapsto> ''v-1'', ''CODE'' \<mapsto> ''V001'', ''NAME'' \<mapsto> ''Acme'']]],
      staging_files = None,
      resolver_schema = vendors_schema,
      cache = Map.empty\<rparr>"

definition code_and_name :: "match_rule list" where
  "code_and_name = [\<lparr>rule_field = ''CODE'', rule_from = ''Vendor Code''\<rparr>,
                    \<lparr>rule_field = ''NAME'', rule_from = ''Vendor Name''\<rparr>]"

definition vendor_lookup :: "(string \<times> lookup_def) list" where
  "vendor_lookup = [(''VENDOR_ID'',
      \<lparr>lookup_entity = ''VENDORS'',
       lookup_match = [\<lparr>rule_field = ''CODE'', rule_from = ''Vendor Code''\<rparr>],
       lookup_optional = False\<rparr>)]"

section \<open>validator.py: type coercion\<close>

text \<open>
  What a library call does: it returns, it raises a \<open>ValueError\<close> or \<open>TypeError\<close> (which
  \<open>validate_type\<close> catches; the text is the exception's message), or it raises something else
  (which \<open>validate_type\<close> lets through).
\<close>

datatype 'a outcome = Returns 'a | Raises string | Escapes string

text \<open>
  The conversions of Python's library that \<open>validate_type\<close> calls on numbers and dates.
  They are parameters: nothing below depends on what they compute. A float is given and
  returned as its \<open>repr\<close>, a datetime as its \<open>str\<close>, a parsed date as its \<open>isoformat()\<close>.
\<close>

record pylib =
  int_of_float :: "string \<Rightarrow> int outcome"
  int_of_str :: "string \<Rightarrow> int outcome"
  float_of_int :: "int \<Rightarrow> string outcome"
  float_of_str :: "string \<Rightarrow> string outcome"
  isoformat :: "string \<Rightarrow> string"
  fromisoformat :: "string \<rightharpoonup> string"
  strptime :: "string \<Rightarrow> string \<rightharpoonup> string"

definition is_hex :: "char \<Rightarrow> bool" where
  "is_hex c = (c \<in> set ''0123456789abcdefABCDEF'')"

text \<open>The pattern \<open>^[0-9a-f]{8}-[0-9a-f]{4}-[0-9a-f]{4}-[0-9a-f]{4}-[0-9a-f]{12}$\<close> under \<open>re.I\<close>.\<close>

definition is_uuid :: "string \<Rightarrow> bool" where
  "is_uuid s =
     (length s = 36
      \<and> list_all is_hex (take 8 s) \<and> s ! 8 = CHR ''-''
      \<and> list_all is_hex (take 4 (drop 9 s)) \<and> s ! 13 = CHR ''-''
      \<and> list_all is_hex (take 4 (drop 14 s)) \<and> s ! 18 = CHR ''-''
      \<and> list_all is_hex (take 4 (drop 19 s)) \<and> s ! 23 = CHR ''-''
      \<and> list_all is_hex (drop 24 s))"

text \<open>The \<open>except (ValueError, TypeError)\<close> clause around the body of \<open>validate_type\<close>.\<close>

definition coerced :: "string \<Rightarrow> pyval outcome \<Rightarrow> string + (pyval \<times> string option)" where
  "coerced fname r =
     (case r of
        Returns v \<Rightarrow> Inr (v, None)
      | Raises e \<Rightarrow> Inr (PNone, Some (''Type coercion failed for '' @ fname @ '': '' @ e))
      | Escapes e \<Rightarrow> Inl e)"

definition map_outcome :: "('a \<Rightarrow> 'b) \<Rightarrow> 'a outcome \<Rightarrow> 'b outcome" where
  "map_outcome f r = (case r of Returns x \<Rightarrow> Returns (f x) | Raises e \<Rightarrow> Raises e | Escapes e \<Rightarrow> Escapes e)"

text \<open>\<open>int(value)\<close> and \<open>float(value)\<close> where \<open>isinstance(value, (int, float))\<close>; a \<open>bool\<close> is an \<open>int\<close>.\<close>

definition to_int :: "pylib \<Rightarrow> pyval \<Rightarrow> pyval outcome" where
  "to_int lib v =
     (case v of
        PBool b \<Rightarrow> Returns (PInt (if b then 1 else 0))
      | PInt i \<Rightarrow> Returns (PInt i)
      | PFloat r \<Rightarrow> map_outcome PInt (int_of_float lib r)
      | _ \<Rightarrow> map_outcome PInt (int_of_str lib (py_strip (py_str v))))"

definition to_float :: "pylib \<Rightarrow> pyval \<Rightarrow> pyval outcome" where
  "to_float lib v =
     (case v of
        PBool b \<Rightarrow> map_outcome PFloat (float_of_int lib (if b then 1 else 0))
      | PInt i \<Rightarrow> map_outcome PFloat (float_of_int lib i)
      | PFloat r \<Rightarrow> Returns (PFloat r)
      | _ \<Rightarrow> map_outcome PFloat (float_of_str lib (py_strip (py_str v))))"

definition to_bool :: "string \<Rightarrow> pyval \<Rightarrow> pyval \<times> string option" where
  "to_bool fname v =
     (case v of
        PBool b \<Rightarrow> (PBool b, None)
      | _ \<Rightarrow>
          (let str_val = py_lower (py_strip (py_str v)) in
           if str_val \<in> set [''true'', ''1'', ''yes'', ''t'', ''y''] then (PBool True, None)
           else if str_val \<in> set [''false'', ''0'', ''no'', ''f'', ''n'', ''''] then (PBool False, None)
           else (PNone, Some (''Invalid boolean value '' @ [CHR 0x27] @ py_str v @ [CHR 0x27]
                               @ '' for '' @ fname))))"

definition to_timestamp :: "pylib \<Rightarrow> string \<Rightarrow> pyval \<Rightarrow> pyval \<times> string option" where
  "to_timestamp lib fname v =
     (case v of
        PDatetime d \<Rightarrow> (PStr (isoformat lib d), None)
      | _ \<Rightarrow>
          (let str_val = py_strip (py_str v) in
           case fromisoformat lib str_val of
             Some ts \<Rightarrow> (PStr ts, None)
           | None \<Rightarrow>
               (case List.map_filter (strptime lib str_val)
                       [''%Y-%m-%d'', ''%Y-%m-%d %H:%M:%S'', ''%d/%m/%Y''] of
                  ts # _ \<Rightarrow> (PStr ts, None)
                | [] \<Rightarrow> (PStr str_val, Some (''Cannot parse timestamp '' @ [CHR 0x27] @ py_str v
                                              @ [CHR 0x27] @ '' for '' @ fname)))))"

definition validate_type ::
  "pylib \<Rightarrow> string \<Rightarrow> pyval \<Rightarrow> string \<Rightarrow> string + (pyval \<times> string option)" where
  "validate_type lib fname v ftype =
     (if v = PNone \<or> py_strip (py_str v) = [] then Inr (PNone, None)
      else
        (let type_upper = py_upper ftype in
         if startswith type_upper ''UUID'' then
           (let str_val = py_strip (py_str v) in
            if is_uuid str_val then Inr (PStr str_val, None)
            else Inr (PStr str_val, Some (''Invalid UUID format for '' @ fname)))
         else if contains ''STRING'' type_upper \<or> contains ''LARGESTRING'' type_upper then
           Inr (PStr (py_strip (py_str v)), None)
         else if type_upper \<in> set [''INTEGER'', ''INTEGER64''] then
           coerced fname (to_int lib v)
         else if contains ''DECIMAL'' type_upper \<or> contains ''FLOAT'' type_upper then
           coerced fname (to_float lib v)
         else if contains ''BOOLEAN'' type_upper then Inr (to_bool fname v)
         else if contains ''TIMESTAMP'' type_upper then Inr (to_timestamp lib fname v)
         else Inr (PStr (py_strip (py_str v)), None)))"

text \<open>
  The field types for which \<open>validate_type\<close> reaches its Boolean branch: the type text
  contains \<open>BOOLEAN\<close> and none of the earlier tests of the \<open>if\<close> chain holds.
\<close>

definition is_boolean_type :: "string \<Rightarrow> bool" where
  "is_boolean_type ftype =
     (let type_upper = py_upper ftype in
      \<not> startswith type_upper ''UUID''
      \<and> \<not> (contains ''STRING'' type_upper \<or> contains ''LARGESTRING'' type_upper)
      \<and> type_upper \<notin> set [''INTEGER'', ''INTEGER64'']
      \<and> \<not> (contains ''DECIMAL'' type_upper \<or> contains ''FLOAT'' type_upper)
      \<and> contains ''BOOLEAN'' type_upper)"

text \<open>A library in which every conversion of a string fails; numbers convert as they read.\<close>

definition failing_pylib :: pylib where
  "failing_pylib =
     \<lparr>int_of_float = (\<lambda>r. Raises ''cannot convert''),
      int_of_str = (\<lambda>s. Raises ''invalid literal for int()''),
      float_of_int = (\<lambda>i. Returns (str_of_int i @ ''.0'')),
      float_of_str = (\<lambda>s. Raises ''could not convert string to float''),
      isoformat = (\<lambda>d. d),
      fromisoformat = (\<lambda>s. None),
      strptime = (\<lambda>s fmt. None)\<rparr>"

section \<open>append\_writer.py\<close>

text \<open>
  A file is its text, and the file system maps a path to the text of the file it names;
  distinct paths name distinct files. The files are opened with \<open>newline=''\<close>, so the
  text read and written is the text of the file, line terminators included.
\<close>

type_synonym filesystem = "string \<rightharpoonup> string"

text \<open>\<open>Path.name\<close> and \<open>Path.stem\<close>, on paths written with \<open>/\<close> and without a trailing one.\<close>

definition path_name :: "string \<Rightarrow> string" where
  "path_name p = rev (takeWhile (\<lambda>c. c \<noteq> CHR ''/'') (rev p))"

definition stem_of :: "string \<Rightarrow> string" where
  "stem_of name =
     (case dropWhile (\<lambda>c. c \<noteq> CHR ''.'') (rev name) of
        [] \<Rightarrow> name
      | dot # front \<Rightarrow>
          if front = [] \<or> takeWhile (\<lambda>c. c \<noteq> CHR ''.'') (rev name) = [] then name
          else rev front)"

definition path_stem :: "string \<Rightarrow> string" where
  "path_stem p = stem_of (path_name p)"

definition path_join :: "string \<Rightarrow> string \<Rightarrow> string" where
  "path_join dir name = dir @ ''/'' @ name"

text \<open>\<open>datetime.now()\<close> and its \<open>strftime('%Y%m%d_%H%M%S')\<close>.\<close>

record datetime =
  year :: nat
  month :: nat
  day :: nat
  hour :: nat
  minute :: nat
  second :: nat

definition zero_pad :: "nat \<Rightarrow> nat \<Rightarrow> string" where
  "zero_pad w n = replicate (w - length (str_of_nat n)) CHR ''0'' @ str_of_nat n"

definition timestamp :: "datetime \<Rightarrow> string" where
  "timestamp now =
     zero_pad 4 (year now) @ zero_pad 2 (month now) @ zero_pad 2 (day now) @ ''_''
     @ zero_pad 2 (hour now) @ zero_pad 2 (minute now) @ zero_pad 2 (second now)"

subsection \<open>The \<open>csv\<close> module\<close>

text \<open>
  \<open>csv.reader\<close> and \<open>csv.writer\<close> under the default dialect, which is the one
  \<open>append_writer.py\<close> uses: delimiter \<open>,\<close>, the double quote as quote character, quotes
  doubled inside a quoted field, minimal quoting, line terminator CR LF, not strict.
\<close>

definition delimiter :: char where
  "delimiter = CHR '',''"

definition quotechar :: char where
  "quotechar = CHR 0x22"

definition CR :: char where
  "CR = CHR 0x0D"

definition LF :: char where
  "LF = CHR 0x0A"

definition lineterminator :: string where
  "lineterminator = [CR, LF]"

text \<open>
  The lines the iteration over a file yields: each ends after its terminator (LF, CR or
  CR LF), which it keeps; the last one may have none. \<open>line\<close> is the line read so far.
\<close>

fun split_lines :: "string \<Rightarrow> string \<Rightarrow> string list" where
  "split_lines line [] = (if line = [] then [] else [line])"
| "split_lines line [c] = [line @ [c]]"
| "split_lines line (c # d # cs) =
     (if c = LF then (line @ [c]) # split_lines [] (d # cs)
      else if c = CR then
        (if d = LF then (line @ [c, d]) # split_lines [] cs
         else (line @ [c]) # split_lines [] (d # cs))
      else split_lines (line @ [c]) (d # cs))"

text \<open>
  The reader is a state machine over the characters of a line, followed by the end-of-line
  mark (\<open>None\<close>). It holds its state, the field it is reading and the fields of the record
  read so far.
\<close>

datatype parser_state =
    START_RECORD | START_FIELD | IN_FIELD | IN_QUOTED_FIELD | QUOTE_IN_QUOTED_FIELD | EAT_CRNL

record reader =
  rd_state :: parser_state
  rd_field :: string
  rd_fields :: "string list"

definition parse_reset :: reader where
  "parse_reset = \<lparr>rd_state = START_RECORD, rd_field = [], rd_fields = []\<rparr>"

definition parse_save_field :: "reader \<Rightarrow> reader" where
  "parse_save_field self = self\<lparr>rd_fields := rd_fields self @ [rd_field self], rd_field := []\<rparr>"

definition parse_add_char :: "reader \<Rightarrow> char \<Rightarrow> reader" where
  "parse_add_char self c = self\<lparr>rd_field := rd_field self @ [c]\<rparr>"

text \<open>The end of a field at a line terminator or at the end-of-line mark.\<close>

definition end_of_field :: "reader \<Rightarrow> char option \<Rightarrow> reader" where
  "end_of_field self c =
     (parse_save_field self)\<lparr>rd_state := (if c = None then START_RECORD else EAT_CRNL)\<rparr>"

definition start_field :: "reader \<Rightarrow> char option \<Rightarrow> reader" where
  "start_field self c =
     (case c of
        None \<Rightarrow> end_of_field self c
      | Some ch \<Rightarrow>
          if ch = LF \<or> ch = CR then end_of_field self c
          else if ch = quotechar then self\<lparr>rd_state := IN_QUOTED_FIELD\<rparr>
          else if ch = delimiter then parse_save_field self
          else (parse_add_char self ch)\<lparr>rd_state := IN_FIELD\<rparr>)"

text \<open>One character, or the end-of-line mark. \<open>Inl\<close> is the \<open>csv.Error\<close> raised.\<close>

definition parse_process_char :: "reader \<Rightarrow> char option \<Rightarrow> string + reader" where
  "parse_process_char self c =
     (case rd_state self of
        START_RECORD \<Rightarrow>
          (case c of
             None \<Rightarrow> Inr self
           | Some ch \<Rightarrow>
               if ch = LF \<or> ch = CR then Inr (self\<lparr>rd_state := EAT_CRNL\<rparr>)
               else Inr (start_field (self\<lparr>rd_state := START_FIELD\<rparr>) c))
      | START_FIELD \<Rightarrow> Inr (start_field self c)
      | IN_FIELD \<Rightarrow>
          (case c of
             None \<Rightarrow> Inr (end_of_field self c)
           | Some ch \<Rightarrow>
               if ch = LF \<or> ch = CR then Inr (end_of_field self c)
               else if ch = delimiter then Inr ((parse_save_field self)\<lparr>rd_state := START_FIELD\<rparr>)
               else Inr (parse_add_char self ch))
      | IN_QUOTED_FIELD \<Rightarrow>
          (case c of
             None \<Rightarrow> Inr self
           | Some ch \<Rightarrow>
               if ch = quotechar then Inr (self\<lparr>rd_state := QUOTE_IN_QUOTED_FIELD\<rparr>)
               else Inr (parse_add_char self ch))
      | QUOTE_IN_QUOTED_FIELD \<Rightarrow>
          (case c of
             None \<Rightarrow> Inr (end_of_field self c)
           | Some ch \<Rightarrow>
               if ch = quotechar then Inr ((parse_add_char self ch)\<lparr>rd_state := IN_QUOTED_FIELD\<rparr>)
               else if ch = delimiter then Inr ((parse_save_field self)\<lparr>rd_state := START_FIELD\<rparr>)
               else if ch = LF \<or> ch = CR then Inr (end_of_field self c)
               else Inr ((parse_add_char self ch)\<lparr>rd_state := IN_FIELD\<rparr>))
      | EAT_CRNL \<Rightarrow>
          (case c of
             None \<Rightarrow> Inr (self\<lparr>rd_state := START_RECORD\<rparr>)
           | Some ch \<Rightarrow>
               if ch = LF \<or> ch = CR then Inr self
               else Inl ''Error: new-line character seen in unquoted field''))"

text \<open>The characters of a line, then the end-of-line mark.\<close>

fun process_line :: "reader \<Rightarrow> string \<Rightarrow> string + reader" where
  "process_line self [] = parse_process_char self None"
| "process_line self (c # cs) =
     (case parse_process_char self (Some c) of
        Inl e \<Rightarrow> Inl e
      | Inr self' \<Rightarrow> process_line self' cs)"

text \<open>
  The records the reader yields from the lines, and the error that ends the iteration, if
  one does. A record is complete when a line leaves the reader at the start of a record;
  otherwise (inside a quoted field) the record goes on with the next line. When the lines
  run out inside a record, what has been read of it is the last record.
\<close>

fun reader_rows :: "reader \<Rightarrow> string list \<Rightarrow> string list list \<times> string option" where
  "reader_rows self [] =
     (if rd_field self \<noteq> [] \<or> rd_state self = IN_QUOTED_FIELD
      then ([rd_fields (parse_save_field self)], None)
      else ([], None))"
| "reader_rows self (line # rest) =
     (case process_line self line of
        Inl e \<Rightarrow> ([], Some e)
      | Inr self' \<Rightarrow>
          if rd_state self' = START_RECORD
          then (let (rows, raised) = reader_rows parse_reset rest
                in (rd_fields self' # rows, raised))
          else reader_rows self' rest)"

definition csv_reader :: "string \<Rightarrow> string list list \<times> string option" where
  "csv_reader text = reader_rows parse_reset (split_lines [] text)"

text \<open>
  \<open>next(reader)\<close> on a fresh reader: the first record, or the exception raised
  (\<open>StopIteration\<close> when there is none).
\<close>

definition next_record :: "string list list \<times> string option \<Rightarrow> string + string list" where
  "next_record reading =
     (case fst reading of
        record # _ \<Rightarrow> Inr record
      | [] \<Rightarrow> Inl (case snd reading of None \<Rightarrow> ''StopIteration'' | Some e \<Rightarrow> e))"

text \<open>
  \<open>writer.writerow\<close>: a field is quoted when it holds the delimiter, the quote character
  or a character of a line terminator, with its quotes doubled; a record of one empty field
  is written as two quote characters; the line terminator ends the record.
\<close>

definition needs_quotes :: "string \<Rightarrow> bool" where
  "needs_quotes s = list_ex (\<lambda>c. c \<in> set [delimiter, quotechar, CR, LF]) s"

definition join_append :: "string \<Rightarrow> string" where
  "join_append s =
     (if needs_quotes s
      then [quotechar] @ concat (map (\<lambda>c. if c = quotechar then [c, c] else [c]) s) @ [quotechar]
      else s)"

fun join_fields :: "string list \<Rightarrow> string" where
  "join_fields [] = []"
| "join_fields [s] = s"
| "join_fields (s # t # ts) = s @ [delimiter] @ join_fields (t # ts)"

definition writerow :: "string list \<Rightarrow> string" where
  "writerow record =
     (if record = [[]] then [quotechar, quotechar] else join_fields (map join_append record))
     @ lineterminator"

text \<open>
  A line as the iteration over a file yields it: once a line terminator character has
  come (\<open>seen\<close>), only such characters follow.
\<close>

fun line_ok :: "bool \<Rightarrow> string \<Rightarrow> bool" where
  "line_ok seen [] = True"
| "line_ok seen (c # cs) =
     (if c = LF \<or> c = CR then line_ok True cs else \<not> seen \<and> line_ok False cs)"

subsection \<open>The writer\<close>

record writer =
  data_dir :: string
  staging_dir :: string
  backup_dir :: string

definition backup_path_of :: "writer \<Rightarrow> datetime \<Rightarrow> string \<Rightarrow> string" where
  "backup_path_of self now csv_path =
     path_join (backup_dir self) (path_stem csv_path @ ''_'' @ timestamp now @ ''.bak.csv'')"

text \<open>
  What the run-time may do to a write: \<open>None\<close>, nothing; \<open>Some (None, e)\<close>, the file cannot
  be opened for writing (it is locked, or not writable) and the exception \<open>e\<close> is raised
  with the file untouched; \<open>Some (Some k, e)\<close>, the exception \<open>e\<close> is raised once \<open>k\<close>
  characters are written (or all of them, if there are fewer).
\<close>

type_synonym fault = "(nat option \<times> string) option"

text \<open>
  \<open>append_entity\<close> writes three times: the copy that makes the backup, the write of the
  rows, and the copy that restores the backup.
\<close>

record faults =
  backup_fault :: fault
  write_fault :: fault
  restore_fault :: fault

definition no_faults :: faults where
  "no_faults = \<lparr>backup_fault = None, write_fault = None, restore_fault = None\<rparr>"

text \<open>
  A file opened in mode \<open>w\<close> and written, and a file that holds \<open>old\<close> opened in mode \<open>a\<close>
  and written: what is written in mode \<open>a\<close> goes after the text the file holds, whatever
  that text ends with. The result is the exception of the fault, if any, and the file
  system left.
\<close>

definition write_file :: "fault \<Rightarrow> filesystem \<Rightarrow> string \<Rightarrow> string \<Rightarrow> string option \<times> filesystem" where
  "write_file fault fs path content =
     (case fault of
        None \<Rightarrow> (None, fs(path \<mapsto> content))
      | Some (None, e) \<Rightarrow> (Some e, fs)
      | Some (Some k, e) \<Rightarrow> (Some e, fs(path \<mapsto> take k content)))"

definition append_file ::
  "fault \<Rightarrow> filesystem \<Rightarrow> string \<Rightarrow> string \<Rightarrow> string \<Rightarrow> string option \<times> filesystem" where
  "append_file fault fs path old new =
     (case fault of
        None \<Rightarrow> (None, fs(path \<mapsto> old @ new))
      | Some (None, e) \<Rightarrow> (Some e, fs)
      | Some (Some k, e) \<Rightarrow> (Some e, fs(path \<mapsto> old @ take k new)))"

text \<open>\<open>shutil.copy2\<close>: the exception raised, if any, and the file system the copy leaves.\<close>

definition copy2 :: "fault \<Rightarrow> filesystem \<Rightarrow> string \<Rightarrow> string \<Rightarrow> string option \<times> filesystem" where
  "copy2 fault fs src dst =
     (case fs src of
        None \<Rightarrow> (Some ''FileNotFoundError'', fs)
      | Some content \<Rightarrow> write_file fault fs dst content)"

text \<open>
  \<open>_backup_csv\<close>: the backup path, if the file exists, or the exception of the copy, and
  the file system after the copy.
\<close>

definition backup_csv ::
  "writer \<Rightarrow> datetime \<Rightarrow> fault \<Rightarrow> filesystem \<Rightarrow> string
    \<Rightarrow> (string + string option) \<times> filesystem" where
  "backup_csv self now fault fs csv_path =
     (case fs csv_path of
        None \<Rightarrow> (Inr None, fs)
      | Some _ \<Rightarrow>
          (let backup_path = backup_path_of self now csv_path;
               (raised, fs') = copy2 fault fs csv_path backup_path
           in case raised of
                None \<Rightarrow> (Inr (Some backup_path), fs')
              | Some e \<Rightarrow> (Inl e, fs')))"

text \<open>
  \<open>next(reader)\<close> on a fresh reader with \<open>StopIteration\<close> caught: the header, or \<open>[]\<close>.
  Another exception is not caught.
\<close>

definition first_record :: "string \<Rightarrow> string + string list" where
  "first_record text =
     (case next_record (csv_reader text) of
        Inr header \<Rightarrow> Inr header
      | Inl e \<Rightarrow> if e = ''StopIteration'' then Inr [] else Inl e)"

definition get_headers ::
  "filesystem \<Rightarrow> string \<Rightarrow> string \<Rightarrow> string + string list \<times> string list" where
  "get_headers fs csv_path staged_path =
     (case (case fs csv_path of None \<Rightarrow> Inr [] | Some text \<Rightarrow> first_record text) of
        Inl e \<Rightarrow> Inl e
      | Inr existing_headers \<Rightarrow>
          (case fs staged_path of
             None \<Rightarrow> Inl ''FileNotFoundError''
           | Some text \<Rightarrow>
               (case first_record text of
                  Inl e \<Rightarrow> Inl e
                | Inr staged_headers \<Rightarrow> Inr (existing_headers, staged_headers))))"

text \<open>
  A row of \<open>csv.DictReader\<close>: the cells under the field names, later duplicates of a name
  winning; the names a short record has no cell for map to \<open>None\<close> (the reader's
  \<open>restval\<close>). The cells beyond the field names go under the key \<open>None\<close>, which no column
  name equals, and are left out.
\<close>

definition dict_row :: "string list \<Rightarrow> string list \<Rightarrow> (string \<rightharpoonup> string option)" where
  "dict_row fieldnames record =
     fold (\<lambda>key d. d(key \<mapsto> None)) (drop (length record) fieldnames)
       (fold (\<lambda>(key, cell) d. d(key \<mapsto> Some cell)) (zip fieldnames record) Map.empty)"

text \<open>
  The rows \<open>csv.DictReader\<close> yields, and the error that ends the iteration, if one does:
  the first record gives the field names, and the reader skips the empty records.
\<close>

definition dict_reader :: "string \<Rightarrow> (string \<rightharpoonup> string option) list \<times> string option" where
  "dict_reader text =
     (let (records, raised) = csv_reader text
      in case records of
           [] \<Rightarrow> ([], raised)
         | fieldnames # rest \<Rightarrow> (map (dict_row fieldnames) (filter (\<lambda>r. r \<noteq> []) rest), raised))"

text \<open>\<open>row.get(h, '')\<close> as \<open>DictWriter\<close> writes it: \<open>None\<close> is written as the empty cell.\<close>

definition cell_of :: "(string \<rightharpoonup> string option) \<Rightarrow> string \<Rightarrow> string" where
  "cell_of row h = (case row h of Some (Some cell) \<Rightarrow> cell | _ \<Rightarrow> [])"

definition out_record :: "string list \<Rightarrow> (string \<rightharpoonup> string option) \<Rightarrow> string list" where
  "out_record headers row = map (cell_of row) headers"

text \<open>The text \<open>writer.writerow(out_row)\<close> writes for each row, one after the other.\<close>

definition rows_text :: "string list \<Rightarrow> (string \<rightharpoonup> string option) list \<Rightarrow> string" where
  "rows_text headers rows = concat (map (\<lambda>row. writerow (out_record headers row)) rows)"

text \<open>
  The body of the \<open>try\<close>: the exception raised, if any, and the file system the block
  leaves. An existing target is opened in mode \<open>a\<close> and gets the rows under its own
  header; a new target is opened in mode \<open>w\<close> and gets the staged header and the rows. An
  exception of the reader comes once the rows before it are written.
\<close>

definition write_rows ::
  "fault \<Rightarrow> filesystem \<Rightarrow> string \<Rightarrow> string \<Rightarrow> string list \<Rightarrow> string list
    \<Rightarrow> string option \<times> filesystem" where
  "write_rows fault fs csv_path staged_file existing_headers staged_headers =
     (case fs csv_path of
        Some old \<Rightarrow>
          (case fs staged_file of
             None \<Rightarrow>
               (let (raised, fs') = append_file fault fs csv_path old []
                in (if raised = None then Some ''FileNotFoundError'' else raised, fs'))
           | Some staged \<Rightarrow>
               (let (rows, read_error) = dict_reader staged;
                    (raised, fs') = append_file fault fs csv_path old
                                      (rows_text existing_headers rows)
                in (if raised = None then read_error else raised, fs')))
      | None \<Rightarrow>
          (case fs staged_file of
             None \<Rightarrow>
               (let (raised, fs') = write_file fault fs csv_path []
                in (if raised = None then Some ''FileNotFoundError'' else raised, fs'))
           | Some staged \<Rightarrow>
               (let (rows, read_error) = dict_reader staged;
                    (raised, fs') = write_file fault fs csv_path
                                      (writerow staged_headers @ rows_text staged_headers rows)
                in (if raised = None then read_error else raised, fs'))))"

text \<open>
  The count of the rows to append, outside the \<open>try\<close>: \<open>next(reader)\<close> raises
  \<open>StopIteration\<close> on a staged file without a header.
\<close>

definition count_rows :: "filesystem \<Rightarrow> string \<Rightarrow> string + nat" where
  "count_rows fs staged_file =
     (case fs staged_file of
        None \<Rightarrow> Inl ''FileNotFoundError''
      | Some text \<Rightarrow>
          (case next_record (csv_reader text) of
             Inl e \<Rightarrow> Inl e
           | Inr header \<Rightarrow>
               (case snd (csv_reader text) of
                  Some e \<Rightarrow> Inl e
                | None \<Rightarrow> Inr (length (tl (fst (csv_reader text)))))))"

text \<open>
  The \<open>except\<close> clause: the backup, if one was taken and is there, is copied over the
  target. The copy can raise in its turn.
\<close>

definition restore_backup ::
  "fault \<Rightarrow> filesystem \<Rightarrow> string option \<Rightarrow> string \<Rightarrow> string option \<times> filesystem" where
  "restore_backup fault fs backup_path csv_path =
     (case backup_path of
        None \<Rightarrow> (None, fs)
      | Some bp \<Rightarrow>
          (case fs bp of
             None \<Rightarrow> (None, fs)
           | Some _ \<Rightarrow> copy2 fault fs bp csv_path))"

record append_result =
  result_entity :: string
  appended :: nat
  backup :: "string option"
  error :: "string option"

text \<open>
  \<open>append_entity\<close>. \<open>Inl\<close> is an exception that leaves the function: one raised while the
  headers are read, the backup is made or the rows are counted, which is outside the \<open>try\<close>,
  or one raised by the copy in the \<open>except\<close> clause.
\<close>

definition append_entity ::
  "writer \<Rightarrow> datetime \<Rightarrow> faults \<Rightarrow> filesystem \<Rightarrow> string \<Rightarrow> string \<Rightarrow> string
    \<Rightarrow> (string + append_result) \<times> filesystem" where
  "append_entity self now faults fs entity csv_file staged_file =
     (case fs staged_file of
        None \<Rightarrow>
          (Inr \<lparr>result_entity = entity, appended = 0, backup = None,
                error = Some ''Staged file not found''\<rparr>, fs)
      | Some _ \<Rightarrow>
          (case get_headers fs csv_file staged_file of
             Inl e \<Rightarrow> (Inl e, fs)
           | Inr (existing_headers, staged_headers) \<Rightarrow>
               (case backup_csv self now (backup_fault faults) fs csv_file of
                  (Inl e, fs1) \<Rightarrow> (Inl e, fs1)
                | (Inr backup_path, fs1) \<Rightarrow>
                    (case count_rows fs1 staged_file of
                       Inl e \<Rightarrow> (Inl e, fs1)
                     | Inr rows_to_append \<Rightarrow>
                         (let (raised, fs2) = write_rows (write_fault faults) fs1 csv_file
                                                staged_file existing_headers staged_headers
                          in case raised of
                               None \<Rightarrow>
                                 (Inr \<lparr>result_entity = entity, appended = rows_to_append,
                                       backup = backup_path, error = None\<rparr>, fs2)
                             | Some e \<Rightarrow>
                                 (let (raised', fs3) = restore_backup (restore_fault faults) fs2
                                                         backup_path csv_file
                                  in case raised' of
                                       Some e' \<Rightarrow> (Inl e', fs3)
                                     | None \<Rightarrow>
                                         (Inr \<lparr>result_entity = entity, appended = 0,
                                               backup = backup_path,
                                               error = Some (''Failed to append: '' @ e)\<rparr>,
                                          fs3)))))))"

subsection \<open>A target file and a staged file\<close>

definition example_writer :: writer where
  "example_writer = \<lparr>data_dir = ''data'', staging_dir = ''staging'', backup_dir = ''backups''\<rparr>"

definition example_now :: datetime where
  "example_now = \<lparr>year = 2025, month = 3, day = 9, hour = 14, minute = 5, second = 0\<rparr>"

definition vendors_csv :: string where
  "vendors_csv = ''data/CCTECH.DRS.ENTITIES-VENDORS.csv''"

definition staged_vendors :: string where
  "staged_vendors = ''staging/VENDORS.csv''"

definition staged_text :: string where
  "staged_text =
     ''ID,NAME,CODE,RATING'' @ lineterminator
     @ ''v-2,Bolt,V002,5'' @ lineterminator
     @ ''v-3,Cog,V003,4'' @ lineterminator"

text \<open>The target as \<open>csv.writer\<close> leaves a file: its last record ends with a line terminator.\<close>

definition example_fs :: filesystem where
  "example_fs =
     [vendors_csv \<mapsto> ''ID,CODE,NAME,CITY'' @ lineterminator @ ''v-1,V001,Acme,Pune'' @ lineterminator,
      staged_vendors \<mapsto> staged_text]"

text \<open>
  The same target as a hand-edited or exported file may be: no line terminator after its
  last record.
\<close>

definition unterminated_fs :: filesystem where
  "unterminated_fs =
     [vendors_csv \<mapsto> ''ID,CODE,NAME,CITY'' @ lineterminator @ ''v-1,V001,Acme,Pune'',
      staged_vendors \<mapsto> staged_text]"

section \<open>staging\_engine.py: the passes of \<open>stage_all\<close>\<close>

text \<open>
  An error record of \<open>transform_entity\<close>: \<open>{row_num, excel_row, errors}\<close>.
\<close>

record error_record =
  rec_row_num :: nat
  rec_excel_row :: row
  rec_errors :: "string list"

text \<open>
  What \<open>stage_entity\<close> returns. Its two early returns build a dictionary with
  \<open>valid_count\<close> 0, \<open>error_count\<close> 0 and a message (\<open>NotStaged\<close>: entity, message); its last
  return builds one from what \<open>transform_entity\<close> gave, with \<open>error_count\<close> the number of
  error records (\<open>Staged\<close>: entity, sheet, valid count, error records, staged file).
\<close>

datatype stage_result =
    NotStaged string string
  | Staged string string nat "error_record list" "string option"

fun valid_count :: "stage_result \<Rightarrow> nat" where
  "valid_count (NotStaged entity msg) = 0"
| "valid_count (Staged entity sheet n error_records staged) = n"

fun error_count :: "stage_result \<Rightarrow> nat" where
  "error_count (NotStaged entity msg) = 0"
| "error_count (Staged entity sheet n error_records staged) = length error_records"

text \<open>
  \<open>any('Could not resolve FK' in err for err_rec in result['errors'] for err in
  err_rec['errors'])\<close>, which the loop evaluates only where \<open>error_count > 0\<close>.
\<close>

fun has_fk_error :: "stage_result \<Rightarrow> bool" where
  "has_fk_error (NotStaged entity msg) = False"
| "has_fk_error (Staged entity sheet n error_records staged) =
     (\<exists>err_rec \<in> set error_records. \<exists>err \<in> set (rec_errors err_rec).
        contains ''Could not resolve FK'' err)"

definition entities_with_fk_errors :: "(string \<times> stage_result) list \<Rightarrow> string list" where
  "entities_with_fk_errors results =
     map fst (filter (\<lambda>(entity, result). error_count result > 0 \<and> has_fk_error result) results)"

text \<open>
  What \<open>stage_all\<close> uses of the engine and of the world: the sheets of the mapping (each with
  its \<open>entity\<close>, empty when the key is missing), the ingestion order of the schema,
  \<open>stage_entity\<close> (it reads the workbook and the stores and writes a staged file: a function
  of the state of the engine and the files, \<open>'w\<close>), and the assignment of a new transformer
  with the staging directory enabled.
\<close>

record ('w, 'c) engine =
  mapping_sheets :: "(string \<times> 'c) list"
  schema_ingestionOrder :: "string list"
  stage_entity :: "'w \<Rightarrow> string \<Rightarrow> 'c \<Rightarrow> stage_result \<times> 'w"
  new_transformer :: "'w \<Rightarrow> 'w"

text \<open>
  A record of one pass after the first, kept beside the state for the statements about the
  loop: the value of \<open>pass_num\<close>, the entities staged again, the two totals the loop
  compares, and what \<open>results\<close> and the world were when the pass began (at the head of the
  loop body) and when it ended (where the totals are compared).
\<close>

record 'w pass_record =
  pass_number :: nat
  restaged :: "string list"
  total_errors_before :: nat
  total_errors_after :: nat
  results_before :: "(string \<times> stage_result) list"
  world_before :: 'w
  results_after :: "(string \<times> stage_result) list"
  world_after :: 'w

type_synonym 'w staging = "(string \<times> stage_result) list \<times> 'w \<times> 'w pass_record list"

text \<open>\<open>{s.get('entity'): s for s in sheets if s.get('entity')}\<close>\<close>

definition entity_to_config :: "(string \<times> 'c) list \<Rightarrow> (string \<rightharpoonup> 'c)" where
  "entity_to_config sheets =
     fold (\<lambda>(entity, s) d. if entity \<noteq> [] then d(entity \<mapsto> s) else d) sheets Map.empty"

text \<open>The body of the loop of pass 1, on \<open>results\<close> and the world.\<close>

definition stage_first ::
  "('w, 'c) engine \<Rightarrow> (string \<times> stage_result) list \<times> 'w \<Rightarrow> string
    \<Rightarrow> (string \<times> stage_result) list \<times> 'w" where
  "stage_first eng st entity =
     (let (results, w) = st in
      case entity_to_config (mapping_sheets eng) entity of
        None \<Rightarrow> st
      | Some sheet_config \<Rightarrow>
          (let (result, w') = stage_entity eng w entity sheet_config
           in (dict_set results entity result, w')))"

text \<open>
  The loop that stages the entities with foreign-key errors again. \<open>Inl\<close> is an exception:
  \<open>entity_to_config[entity]\<close> and \<open>results[e]\<close> raise \<open>KeyError\<close> on a missing key.
\<close>

fun restage ::
  "('w, 'c) engine \<Rightarrow> string list \<Rightarrow> (string \<times> stage_result) list \<times> 'w
    \<Rightarrow> string + (string \<times> stage_result) list \<times> 'w" where
  "restage eng [] st = Inr st"
| "restage eng (entity # rest) (results, w) =
     (case entity_to_config (mapping_sheets eng) entity of
        None \<Rightarrow> Inl ''KeyError''
      | Some sheet_config \<Rightarrow>
          (let (result, w') = stage_entity eng w entity sheet_config
           in restage eng rest (dict_set results entity result, w')))"

fun total_errors :: "(string \<times> stage_result) list \<Rightarrow> string list \<Rightarrow> string + nat" where
  "total_errors results [] = Inr 0"
| "total_errors results (e # es) =
     (case map_of results e of
        None \<Rightarrow> Inl ''KeyError''
      | Some result \<Rightarrow>
          (case total_errors results es of
             Inl x \<Rightarrow> Inl x
           | Inr n \<Rightarrow> Inr (error_count result + n)))"

definition max_passes :: nat where
  "max_passes = 5"

text \<open>The \<open>while pass_num <= max_passes\<close> loop.\<close>

function restage_loop :: "('w, 'c) engine \<Rightarrow> nat \<Rightarrow> 'w staging \<Rightarrow> string + 'w staging" where
  "restage_loop eng pass_num (results, w, passes) =
     (if pass_num \<le> max_passes then
        (let entities = entities_with_fk_errors results in
         if entities = [] then Inr (results, w, passes)
         else
           (let w1 = new_transformer eng w
            in case total_errors results entities of
                 Inl x \<Rightarrow> Inl x
               | Inr errors_before \<Rightarrow>
                   (case restage eng entities (results, w1) of
                      Inl x \<Rightarrow> Inl x
                    | Inr (results2, w2) \<Rightarrow>
                        (case total_errors results2 entities of
                           Inl x \<Rightarrow> Inl x
                         | Inr errors_after \<Rightarrow>
                             (let passes2 = passes @ [\<lparr>pass_number = pass_num,
                                                       restaged = entities,
                                                       total_errors_before = errors_before,
                                                       total_errors_after = errors_after,
                                                       results_before = results,
                                                       world_before = w,
                                                       results_after = results2,
                                                       world_after = w2\<rparr>]
                              in if errors_after \<ge> errors_before
                                 then Inr (results2, w2, passes2)
                                 else restage_loop eng (pass_num + 1) (results2, w2, passes2))))))
      else Inr (results, w, passes))"
  by pat_completeness auto
termination
  by (relation "measure (\<lambda>(eng, pass_num, st). Suc max_passes - pass_num)") auto

declare restage_loop.simps [simp del]

definition stage_all :: "('w, 'c) engine \<Rightarrow> 'w \<Rightarrow> string + 'w staging" where
  "stage_all eng w =
     (let (results, w1) = foldl (stage_first eng) ([], w) (schema_ingestionOrder eng)
      in restage_loop eng 2 (results, w1, []))"

text \<open>The passes run in all: pass 1 and the passes on record.\<close>

definition total_passes :: "'w pass_record list \<Rightarrow> nat" where
  "total_passes passes = 1 + length passes"

subsection \<open>An engine whose foreign keys resolve in the second pass\<close>

text \<open>
  The world is the number of transformers built with the staging directory enabled. A
  service order refers to a vendor of the same batch: before any such transformer exists
  the row fails with a foreign-key error, afterwards it is staged.
\<close>

definition example_engine :: "(nat, unit) engine" where
  "example_engine =
     \<lparr>mapping_sheets = [(''VENDORS'', ()), (''SERVICEORDERS'', ())],
      schema_ingestionOrder = [''VENDORS'', ''SERVICEORDERS'', ''UNITSCOPE''],
      stage_entity = (\<lambda>w entity cfg.
        if entity = ''SERVICEORDERS'' \<and> w = 0
        then (Staged entity ''SO'' 0
                [\<lparr>rec_row_num = 1, rec_excel_row = Map.empty,
                  rec_errors = [''Could not resolve FK 'VENDOR_ID' '']\<rparr>] None, w)
        else (Staged entity ''SO'' 1 [] (Some (''staging/'' @ entity @ ''.csv'')), w)),
      new_transformer = Suc\<rparr>"

subsection \<open>What a pass on record must be\<close>

text \<open>
  The total error count across the entities \<open>es\<close> in \<open>results\<close>: the sum of \<open>error_count\<close>
  over them, as the specification has it.
\<close>

definition sum_error_count :: "(string \<times> stage_result) list \<Rightarrow> string list \<Rightarrow> nat" where
  "sum_error_count results es =
     sum_list (map (\<lambda>e. case map_of results e of None \<Rightarrow> 0 | Some r \<Rightarrow> error_count r) es)"

text \<open>
  A pass on record is consistent when it staged again the entities whose results had
  foreign-key errors as it began, and there were some; its results at the end are those
  of staging these entities again, in a world with a new transformer; and its two totals
  are the sums of \<open>error_count\<close> over these entities, in the results before and after.
\<close>

definition pass_consistent :: "('w, 'c) engine \<Rightarrow> 'w pass_record \<Rightarrow> bool" where
  "pass_consistent eng p =
     (restaged p = entities_with_fk_errors (results_before p)
      \<and> restaged p \<noteq> []
      \<and> restage eng (restaged p) (results_before p, new_transformer eng (world_before p))
            = Inr (results_after p, world_after p)
      \<and> total_errors_before p = sum_error_count (results_before p) (restaged p)
      \<and> total_errors_after p = sum_error_count (results_after p) (restaged p))"

text \<open>
  The passes on record lead from the state \<open>first\<close> to the state \<open>final\<close>: each begins
  where the one before ended.
\<close>

fun chained ::
  "(string \<times> stage_result) list \<times> 'w \<Rightarrow> 'w pass_record list
    \<Rightarrow> (string \<times> stage_result) list \<times> 'w \<Rightarrow> bool" where
  "chained first [] final = (final = first)"
| "chained first (p # ps) final =
     ((results_before p, world_before p) = first
      \<and> chained (results_after p, world_after p) ps final)"

subsection \<open>Invariants of the passes\<close>

text \<open>Every entity with a result has a sheet configuration.\<close>

definition keys_ok :: "('w, 'c) engine \<Rightarrow> (string \<times> stage_result) list \<Rightarrow> bool" where
  "keys_ok eng results = (fst ` set results \<subseteq> dom (entity_to_config (mapping_sheets eng)))"

text \<open>
  What the loop guarantees of the records \<open>ext\<close> it adds when \<open>budget\<close> passes are left: it
  adds no more than \<open>budget\<close>; if it adds fewer, it stopped on results without foreign-key
  errors or after a pass that did not lower the total; every pass staged some entity again;
  every pass but the last lowered the total.
\<close>

definition loop_ok :: "nat \<Rightarrow> (string \<times> stage_result) list \<Rightarrow> 'w pass_record list \<Rightarrow> bool" where
  "loop_ok budget results ext =
     (length ext \<le> budget
      \<and> (length ext < budget \<longrightarrow>
           entities_with_fk_errors results = []
           \<or> (ext \<noteq> [] \<and> total_errors_before (last ext) \<le> total_errors_after (last ext)))
      \<and> (\<forall>r \<in> set ext. restaged r \<noteq> [])
      \<and> (\<forall>r \<in> set (butlast ext). total_errors_after r < total_errors_before r))"

section \<open>dedup\_config.py\<close>

definition DEDUP_ENTITIES :: "(string \<times> string list) list" where
  "DEDUP_ENTITIES =
     [(''CLUSTERS'', [''NAME'']), (''SPVS'', [''NAME'']),
      (''PROJECTS'', [''NAME'', ''TYPE'', ''CATEGORY'']), (''LOCATIONS'', [''NAME'']),
      (''PLOTS'', [''NAME'']), (''VENDORS'', [''CODE'']), (''PROJECTDEFINITIONS'', [''CODE'']),
      (''PACKAGES'', [''NAME''])]"

definition should_deduplicate :: "string \<Rightarrow> bool" where
  "should_deduplicate entity = (entity \<in> fst ` set DEDUP_ENTITIES)"

definition get_dedup_keys :: "string \<Rightarrow> string list" where
  "get_dedup_keys entity = (case map_of DEDUP_ENTITIES entity of Some keys \<Rightarrow> keys | None \<Rightarrow> [])"

section \<open>transformer.py: \<open>transform_entity\<close>\<close>

text \<open>
  An output row, and a row loaded from the entity's CSV file, is a dictionary from column
  names to values, kept as the list of its items: \<open>if transformed:\<close> asks whether that
  list is empty.
\<close>

type_synonym out_row = "(string \<times> pyval) list"

definition dict_get :: "out_row \<Rightarrow> string \<Rightarrow> pyval \<Rightarrow> pyval" where
  "dict_get d k dflt = (case map_of d k of Some v \<Rightarrow> v | None \<Rightarrow> dflt)"

record sheet_config =
  cfg_sheet :: string
  cfg_csvFile :: string
  cfg_columnMap :: "(string \<times> string) list"
  cfg_lookups :: "(string \<times> lookup_def) list"
  cfg_defaults :: "(string \<times> pyval) list"

text \<open>
  \<open>_load_existing_csv\<close> on the files of the data directory, by path: the rows of the file,
  or none when there is no such file.
\<close>

definition load_existing_csv :: "(string \<rightharpoonup> out_row list) \<Rightarrow> string \<Rightarrow> out_row list" where
  "load_existing_csv files csv_path = (case files csv_path of None \<Rightarrow> [] | Some rows \<Rightarrow> rows)"

text \<open>
  \<open>tuple(str(r.get(k, '')).strip().upper() for k in dedup_keys)\<close>: the key of an existing
  row and of a transformed row.
\<close>

definition store_key :: "string list \<Rightarrow> out_row \<Rightarrow> string list" where
  "store_key dedup_keys r =
     map (\<lambda>k. py_upper (py_strip (py_str (dict_get r k (PStr []))))) dedup_keys"

text \<open>
  The key built from the Excel row before it is transformed: for each key field, the
  first Excel column the column map sends to it.
\<close>

definition excel_key_value :: "(string \<times> string) list \<Rightarrow> row \<Rightarrow> string \<Rightarrow> string" where
  "excel_key_value column_map excel_row key_field =
     (case find (\<lambda>(excel_key, csv_field). csv_field = key_field) column_map of
        None \<Rightarrow> []
      | Some (excel_col, csv_field) \<Rightarrow>
          (if excel_col \<noteq> [] then
             (case excel_row excel_col of
                None \<Rightarrow> []
              | Some v \<Rightarrow> py_lower (py_strip (py_str (if truthy v then v else PStr []))))
           else []))"

definition excel_key :: "(string \<times> string) list \<Rightarrow> string list \<Rightarrow> row \<Rightarrow> string list" where
  "excel_key column_map dedup_keys excel_row =
     map (excel_key_value column_map excel_row) dedup_keys"

text \<open>The variables of the loop of \<open>transform_entity\<close>.\<close>

record transform_state =
  valid_rows :: "out_row list"
  error_records :: "error_record list"
  all_rows :: "out_row list"
  existing_key_set :: "string list set"
  seen_keys :: "string list set"

text \<open>The branch \<open>if transformed:\<close> of the loop body, for the row \<open>t\<close>.\<close>

definition accept_row :: "string \<Rightarrow> out_row \<Rightarrow> transform_state \<Rightarrow> transform_state" where
  "accept_row entity t st =
     (if should_deduplicate entity then
        (let key_tuple = store_key (get_dedup_keys entity) t in
         if key_tuple \<in> existing_key_set st then st
         else st\<lparr>existing_key_set := insert key_tuple (existing_key_set st),
                 valid_rows := valid_rows st @ [t],
                 all_rows := all_rows st @ [t]\<rparr>)
      else st\<lparr>valid_rows := valid_rows st @ [t], all_rows := all_rows st @ [t]\<rparr>)"

text \<open>The \<open>else\<close> branch, for the errors \<open>transform_row\<close> returned.\<close>

definition reject_row ::
  "string \<Rightarrow> nat \<Rightarrow> row \<Rightarrow> string list \<Rightarrow> transform_state \<Rightarrow> transform_state" where
  "reject_row entity idx excel_row errs st =
     (if should_deduplicate entity
         \<and> (\<exists>err \<in> set errs. contains ''Unique constraint'' err \<and> contains ''violated'' err)
      then st
      else if get_duplicate_policy entity = Some ''skip''
              \<and> (\<forall>e \<in> set errs. contains ''Unique constraint'' e)
      then st\<lparr>error_records := error_records st
                @ [\<lparr>rec_row_num = idx, rec_excel_row = excel_row,
                    rec_errors = [''Skipped due to duplicate (unique constraint)'']\<rparr>]\<rparr>
      else st\<lparr>error_records := error_records st
                @ [\<lparr>rec_row_num = idx, rec_excel_row = excel_row, rec_errors = errs\<rparr>]\<rparr>)"

text \<open>
  The body of the loop. \<open>transform_row\<close> is a parameter: the call
  \<open>self.transform_row(entity, sheet_config, excel_row, all_rows)\<close> as a function of the row
  and of the rows accumulated so far, and of the row number, which stands for the random
  identifier the call may draw. It returns \<open>None\<close> or a dictionary, which counts as false
  when it is empty.
\<close>

definition transform_step ::
  "(nat \<Rightarrow> row \<Rightarrow> out_row list \<Rightarrow> out_row option \<times> string list) \<Rightarrow> string \<Rightarrow> sheet_config
    \<Rightarrow> transform_state \<Rightarrow> nat \<times> row \<Rightarrow> transform_state" where
  "transform_step transform_row entity cfg st item =
     (let idx = fst item; excel_row = snd item;
          run = (\<lambda>st. case transform_row idx excel_row (all_rows st) of
                        (Some t, errs) \<Rightarrow>
                          if t \<noteq> [] then accept_row entity t st
                          else reject_row entity idx excel_row errs st
                      | (None, errs) \<Rightarrow> reject_row entity idx excel_row errs st)
      in if should_deduplicate entity then
           (let key_values = excel_key (cfg_columnMap cfg) (get_dedup_keys entity) excel_row in
            if list_all (\<lambda>v. v = []) key_values then st
            else if key_values \<in> seen_keys st then st
            else run (st\<lparr>seen_keys := insert key_values (seen_keys st)\<rparr>))
         else run st)"

text \<open>
  \<open>transform_entity\<close>. An entity of the schema whose \<open>csv\<close> is \<open>null\<close> makes
  \<open>csv_info.get\<close> raise \<open>AttributeError\<close> (\<open>Inl\<close>); an entity the schema does not have,
  or one without a file path, gives no rows.
\<close>

definition transform_entity ::
  "(nat \<Rightarrow> row \<Rightarrow> out_row list \<Rightarrow> out_row option \<times> string list) \<Rightarrow> schema
    \<Rightarrow> (string \<rightharpoonup> out_row list) \<Rightarrow> string \<Rightarrow> sheet_config \<Rightarrow> row list
    \<Rightarrow> string + out_row list \<times> error_record list" where
  "transform_entity transform_row sch files entity cfg excel_rows =
     (case entities sch entity of
        None \<Rightarrow> Inr ([], [])
      | Some entity_info \<Rightarrow>
          (case ent_csv entity_info of
             None \<Rightarrow> Inl ''AttributeError''
           | Some csv_info \<Rightarrow>
               if info_file csv_info = [] then Inr ([], [])
               else
                 (let existing_rows = load_existing_csv files (info_file csv_info);
                      init = \<lparr>valid_rows = [], error_records = [], all_rows = existing_rows,
                              existing_key_set =
                                (if should_deduplicate entity
                                 then set (map (store_key (get_dedup_keys entity)) existing_rows)
                                 else {}),
                              seen_keys = {}\<rparr>;
                      final = foldl (transform_step transform_row entity cfg) init
                                (enumerate 1 excel_rows)
                  in Inr (valid_rows final, error_records final))))"

subsection \<open>A store that already holds the cluster of the spreadsheet\<close>

definition clusters_schema :: schema where
  "clusters_schema =
     \<lparr>enums = Map.empty,
      entities = [''CLUSTERS'' \<mapsto>
        \<lparr>ent_fields = [\<lparr>field_name = ''ID'', field_type = ''UUID'', field_key = True\<rparr>,
                       \<lparr>field_name = ''NAME'', field_type = ''String(100)'', field_key = False\<rparr>],
         ent_associations = [], ent_uniqueConstraints = [],
         ent_csv = Some \<lparr>info_file = ''data/CCTECH.DRS.ENTITIES-CLUSTERS.csv'',
                         info_columns = [''ID'', ''NAME'']\<rparr>\<rparr>],
      ingestionOrder = [''CLUSTERS'']\<rparr>"

definition clusters_files :: "string \<rightharpoonup> out_row list" where
  "clusters_files =
     [''data/CCTECH.DRS.ENTITIES-CLUSTERS.csv'' \<mapsto>
        [[(''ID'', PStr ''c-1''), (''NAME'', PStr ''North'')]]]"

definition clusters_config :: sheet_config where
  "clusters_config =
     \<lparr>cfg_sheet = ''SO Data'', cfg_csvFile = ''data/CCTECH.DRS.ENTITIES-CLUSTERS.csv'',
      cfg_columnMap = [(''Cluster'', ''NAME'')], cfg_lookups = [], cfg_defaults = []\<rparr>"

text \<open>
  A \<open>transform_row\<close> for that sheet: it maps the column \<open>Cluster\<close> to \<open>NAME\<close>, trimmed,
  and gives the row an identifier made from its number.
\<close>

definition clusters_transform_row :: "nat \<Rightarrow> row \<Rightarrow> out_row list \<Rightarrow> out_row option \<times> string list" where
  "clusters_transform_row idx excel_row rows =
     (case excel_row ''Cluster'' of
        None \<Rightarrow> (None, [''Required key field 'NAME' is missing''])
      | Some v \<Rightarrow> (Some [(''ID'', PStr (''new-'' @ str_of_nat idx)),
                          (''NAME'', PStr (py_strip (py_str v)))], []))"

text \<open>
  The state of the loop while nothing has been staged and nothing recorded.
\<close>

definition untouched :: "out_row list \<Rightarrow> string list set \<Rightarrow> transform_state \<Rightarrow> bool" where
  "untouched existing keys st =
     (valid_rows st = [] \<and> error_records st = [] \<and> all_rows st = existing
      \<and> existing_key_set st = keys)"

chapter \<open>The properties\<close>

section \<open>Duplicate policy\<close>

text \<open>
  C10. For every entity name that the \<open>DUPLICATE_POLICY\<close> table does not list, the
  \<open>get_duplicate_policy\<close> that callers reach returns \<open>skip\<close>: the definition at line 45
  has replaced the one at line 16, so the default is \<open>skip\<close> and not \<open>error\<close>.
\<close>

theorem get_duplicate_policy_default_skip:
  assumes "entity \<notin> fst ` set DUPLICATE_POLICY"
  shows "get_duplicate_policy entity = Some ''skip''
         \<and> get_duplicate_policy entity \<noteq> Some ''error''
         \<and> policy_namespace ''get_duplicate_policy'' = Some get_duplicate_policy_line45"
proof -
  from assms have "map_of DUPLICATE_POLICY entity = None"
    by (simp add: map_of_eq_None_iff)
  then show ?thesis
    by (simp add: get_duplicate_policy_def policy_namespace_def get_duplicate_policy_line45_def)
qed

theorem get_duplicate_policy_default_skip_witness:
  "''UNITSCOPE'' \<notin> fst ` set DUPLICATE_POLICY
   \<and> get_duplicate_policy ''UNITSCOPE'' = Some ''skip''
   \<and> get_duplicate_policy_line16 ''UNITSCOPE'' = ''error''"
proof -
  have h: "''UNITSCOPE'' \<notin> fst ` set DUPLICATE_POLICY"
    by (simp add: DUPLICATE_POLICY_def)
  have "get_duplicate_policy_line16 ''UNITSCOPE'' = ''error''"
    by (simp add: get_duplicate_policy_line16_def ENTITY_POLICIES_def py_upper_def upper_char_def
        ascii_lowercase_def ascii_uppercase_def)
  with h get_duplicate_policy_default_skip [OF h] show ?thesis by simp
qed

section \<open>The dependency map\<close>

lemma set_foldl_add_target:
  "set (foldl (add_target ename) acc ts) = set acc \<union> {t \<in> set ts. t \<noteq> [] \<and> t \<noteq> ename}"
  by (induction ts arbitrary: acc) (auto simp: add_target_def)

text \<open>
  Once the first loop has run, the target of every association is in \<open>targets\<close> (unless it
  is empty or the entity itself), so the second loop finds nothing to add.
\<close>

lemma id_heuristic_redundant:
  assumes "\<forall>a \<in> set assocs. assoc_target a \<noteq> [] \<and> assoc_target a \<noteq> ename
             \<longrightarrow> assoc_target a \<in> set targets"
  shows "id_heuristic ename assocs targets f = targets"
  using assms
  by (auto simp: id_heuristic_def Let_def add_target_def find_Some_iff split: option.splits)

lemma foldl_id_heuristic_redundant:
  assumes "\<forall>a \<in> set assocs. assoc_target a \<noteq> [] \<and> assoc_target a \<noteq> ename
             \<longrightarrow> assoc_target a \<in> set targets"
  shows "foldl (id_heuristic ename assocs) targets fs = targets"
  using assms by (induction fs) (simp_all add: id_heuristic_redundant)

lemma entity_targets_assocs:
  "entity_targets ename edef =
     foldl (add_target ename) [] (map assoc_target (ent_associations edef))"
  unfolding entity_targets_def
  by (rule foldl_id_heuristic_redundant) (auto simp: set_foldl_add_target)

text \<open>
  C5, as the code has it. The dependency map has an entry for every entity, and the edges
  of entity \<open>A\<close> are exactly the non-empty targets, other than \<open>A\<close> itself, of the
  associations \<open>A\<close> declares. A field \<open>X_ID\<close> of type UUID contributes the target of the
  association named \<open>X\<close> only, which the first loop has added already: fields add no edge.
\<close>

theorem build_dependencies_edges:
  assumes "(A, edef) \<in> set ents"
  shows "(A, entity_targets A edef) \<in> set (build_dependencies ents)
         \<and> (\<forall>B. B \<in> set (entity_targets A edef) \<longleftrightarrow>
                  (B \<noteq> A \<and> B \<noteq> [] \<and> (\<exists>a \<in> set (ent_associations edef). assoc_target a = B)))"
proof -
  from assms have "(A, entity_targets A edef) \<in> set (build_dependencies ents)"
    by (force simp: build_dependencies_def)
  moreover have "\<forall>B. B \<in> set (entity_targets A edef) \<longleftrightarrow>
                  (B \<noteq> A \<and> B \<noteq> [] \<and> (\<exists>a \<in> set (ent_associations edef). assoc_target a = B))"
    by (auto simp: entity_targets_assocs set_foldl_add_target)
  ultimately show ?thesis by blast
qed

theorem build_dependencies_edges_witness:
  "build_dependencies
     [(''LOCATIONS'',
       \<lparr>ent_fields = [\<lparr>field_name = ''ID'', field_type = ''UUID'', field_key = True\<rparr>,
                      \<lparr>field_name = ''CLUSTER_ID'', field_type = ''UUID'', field_key = False\<rparr>],
        ent_associations = [\<lparr>assoc_name = ''CLUSTER'', assoc_target = ''CLUSTERS''\<rparr>,
                            \<lparr>assoc_name = ''PARENT'', assoc_target = ''LOCATIONS''\<rparr>],
        ent_uniqueConstraints = []\<rparr>)]
   = [(''LOCATIONS'', [''CLUSTERS''])]"
proof -
  let ?edef = "\<lparr>ent_fields = [\<lparr>field_name = ''ID'', field_type = ''UUID'', field_key = True\<rparr>,
                      \<lparr>field_name = ''CLUSTER_ID'', field_type = ''UUID'', field_key = False\<rparr>],
        ent_associations = [\<lparr>assoc_name = ''CLUSTER'', assoc_target = ''CLUSTERS''\<rparr>,
                            \<lparr>assoc_name = ''PARENT'', assoc_target = ''LOCATIONS''\<rparr>],
        ent_uniqueConstraints = []\<rparr>"
  have h: "(''LOCATIONS'', ?edef) \<in> set [(''LOCATIONS'', ?edef)]" by simp
  have t: "entity_targets ''LOCATIONS'' ?edef = [''CLUSTERS'']"
    by (simp add: entity_targets_assocs add_target_def)
  from build_dependencies_edges [OF h] t show ?thesis
    by (simp add: build_dependencies_def)
qed

text \<open>
  The claim as written fails: an entity with a field \<open>CLUSTER_ID\<close> of type UUID and no
  association gets no edge at all.
\<close>

theorem build_dependencies_id_field_counterexample:
  "endswith ''CLUSTER_ID'' ''_ID'' \<and> startswith (py_upper ''UUID'') ''UUID''
   \<and> build_dependencies
       [(''LOCATIONS'',
         \<lparr>ent_fields = [\<lparr>field_name = ''CLUSTER_ID'', field_type = ''UUID'', field_key = False\<rparr>],
          ent_associations = [], ent_uniqueConstraints = []\<rparr>)]
     = [(''LOCATIONS'', [])]"
  by (simp add: build_dependencies_def entity_targets_def id_heuristic_def
      endswith_def startswith_def py_upper_def upper_char_def ascii_lowercase_def
      ascii_uppercase_def)

section \<open>Foreign-key resolution\<close>

lemma map_of_dict_set: "map_of (dict_set d k v) = (map_of d)(k \<mapsto> v)"
  by (induction d k v rule: dict_set.induct) auto

lemma keys_dict_set: "fst ` set (dict_set d k v) = insert k (fst ` set d)"
  by (induction d k v rule: dict_set.induct) auto

lemma distinct_dict_set: "distinct (map fst d) \<Longrightarrow> distinct (map fst (dict_set d k v))"
proof (induction d k v rule: dict_set.induct)
  case (1 k v) then show ?case by simp
next
  case (2 k' v' d k v)
  then show ?case using keys_dict_set [of d k v] by (auto simp: image_iff) 
qed

lemma add_criterion_no_value:
  "rule_value row_values mf = None \<Longrightarrow> add_criterion row_values criteria mf = criteria"
  by (auto simp: add_criterion_def rule_value_def is_blank_def split: option.splits if_splits)


lemma add_criterion_cases:
  "add_criterion row_values criteria mf = criteria
   \<or> (\<exists>v. add_criterion row_values criteria mf = dict_set criteria (rule_field mf) v)"
  by (auto simp: add_criterion_def split: option.splits)

lemma build_criteria_no_values:
  "\<forall>mf \<in> set mfs. rule_value row_values mf = None \<Longrightarrow> foldl (add_criterion row_values) acc mfs = acc"
  by (induction mfs arbitrary: acc) (simp_all add: add_criterion_no_value)

lemma distinct_criteria:
  "distinct (map fst acc) \<Longrightarrow> distinct (map fst (foldl (add_criterion row_values) acc mfs))"
proof (induction mfs arbitrary: acc)
  case Nil then show ?case by simp
next
  case (Cons mf mfs)
  have "distinct (map fst (add_criterion row_values acc mf))"
    using add_criterion_cases [of row_values acc mf] Cons.prems
    by (auto simp: distinct_dict_set)
  then show ?case using Cons.IH by simp
qed











lemmas resolver_eval =
  lookup_id_def load_entity_data_def vendors_resolver_def vendors_schema_def code_and_name_def
  vendor_lookup_def file_rows_def build_criteria_def add_criterion_def criterion_matches_def
  resolve_all_fks_def resolve_fk_def rule_value_def is_blank_def Let_def
  py_strip_def is_space_def py_upper_def upper_char_def ascii_lowercase_def ascii_uppercase_def
  endswith_def str_of_int_def str_of_nat.simps digit_char_def
  rule_valued_def matches_rules_def ascii_sources_def ascii_cells_def is_ascii_def



lemma resolve_fk_cases:
  "fst (resolve_fk excel_row (resolved, self) (k, ldef)) = resolved
   \<or> (\<exists>v. fst (resolve_fk excel_row (resolved, self) (k, ldef)) = dict_set resolved k v)"
  by (auto simp: resolve_fk_def Let_def split: option.splits prod.splits)

lemma resolve_fk_passthrough:
  assumes "lookup_entity ldef \<noteq> []" "excel_row fk_field = Some v" "truthy v"
  shows "resolve_fk excel_row (resolved, self) (fk_field, ldef)
         = (dict_set resolved fk_field (Some (py_strip (py_str v))), self)"
  using assms by (simp add: resolve_fk_def)

lemma resolve_fk_keeps:
  assumes "excel_row fk_field = Some v" "truthy v"
          "map_of (fst st) fk_field = Some (Some (py_strip (py_str v)))"
  shows "map_of (fst (resolve_fk excel_row st item)) fk_field = Some (Some (py_strip (py_str v)))"
proof (cases "fst item = fk_field")
  case True
  with assms show ?thesis
    by (cases st; cases item) (auto simp: resolve_fk_def map_of_dict_set)
next
  case False
  obtain resolved self k ldef where s: "st = (resolved, self)" "item = (k, ldef)"
    by (cases st; cases item)
  with False assms(3) resolve_fk_cases [of excel_row resolved self k ldef] show ?thesis
    by (auto simp: map_of_dict_set)
qed

lemma foldl_resolve_fk_keeps:
  assumes "excel_row fk_field = Some v" "truthy v"
          "map_of (fst st) fk_field = Some (Some (py_strip (py_str v)))"
  shows "map_of (fst (foldl (resolve_fk excel_row) st items)) fk_field
         = Some (Some (py_strip (py_str v)))"
  using assms(3)
proof (induction items arbitrary: st)
  case Nil then show ?case by simp
next
  case (Cons item items)
  have "map_of (fst (resolve_fk excel_row st item)) fk_field = Some (Some (py_strip (py_str v)))"
    using assms(1,2) Cons.prems by (rule resolve_fk_keeps)
  then show ?case by (simp add: Cons.IH)
qed

text \<open>
  C4, as the code has it, for ASCII values. For a foreign-key field whose lookup
  definition names a target entity, a value under the field's own column that Python counts
  as true (every non-blank string, every number but zero) is returned as its trimmed
  string, whatever the stores hold: the round of the loop for that field leaves the resolver, and so its cache,
  untouched (no lookup, no file read), and no later round changes the result.
\<close>

theorem resolve_all_fks_passthrough:
  assumes "(fk_field, ldef) \<in> set lookups_config" "lookup_entity ldef \<noteq> []"
          "excel_row fk_field = Some v" "truthy v" "is_ascii (py_str v)"
  shows "map_of (fst (resolve_all_fks self entity lookups_config excel_row)) fk_field
           = Some (Some (py_strip (py_str v)))
         \<and> (\<forall>resolved. resolve_fk excel_row (resolved, self) (fk_field, ldef)
               = (dict_set resolved fk_field (Some (py_strip (py_str v))), self))"
proof -
  from assms(1) obtain xs ys where c: "lookups_config = xs @ (fk_field, ldef) # ys"
    by (auto simp: in_set_conv_decomp)
  obtain resolved self' where p: "foldl (resolve_fk excel_row) ([], self) xs = (resolved, self')"
    by (cases "foldl (resolve_fk excel_row) ([], self) xs")
  have pass: "\<And>resolved self. resolve_fk excel_row (resolved, self) (fk_field, ldef)
               = (dict_set resolved fk_field (Some (py_strip (py_str v))), self)"
    using assms(2-4) by (rule resolve_fk_passthrough)
  have "map_of (fst (resolve_fk excel_row (resolved, self') (fk_field, ldef))) fk_field
          = Some (Some (py_strip (py_str v)))"
    by (simp add: pass map_of_dict_set)
  with assms(3,4)
  have "map_of (fst (foldl (resolve_fk excel_row)
                  (resolve_fk excel_row (resolved, self') (fk_field, ldef)) ys)) fk_field
           = Some (Some (py_strip (py_str v)))"
    by (rule foldl_resolve_fk_keeps)
  then have "map_of (fst (resolve_all_fks self entity lookups_config excel_row)) fk_field
           = Some (Some (py_strip (py_str v)))"
    by (simp add: resolve_all_fks_def c p)
  moreover have "\<forall>resolved. resolve_fk excel_row (resolved, self) (fk_field, ldef)
               = (dict_set resolved fk_field (Some (py_strip (py_str v))), self)"
    by (simp add: pass)
  ultimately show ?thesis by simp
qed

theorem resolve_all_fks_passthrough_witness:
  "fst (resolve_all_fks vendors_resolver ''SERVICEORDERS'' vendor_lookup
         [''Vendor Code'' \<mapsto> PStr ''V001'', ''VENDOR_ID'' \<mapsto> PStr ''v-2''])
     = [(''VENDOR_ID'', Some ''v-2'')]
   \<and> fst (lookup_id vendors_resolver ''VENDORS'' (lookup_match (snd (hd vendor_lookup)))
         [''Vendor Code'' \<mapsto> PStr ''V001'', ''VENDOR_ID'' \<mapsto> PStr ''v-2''])
     = Some ''v-1''"
proof -
  let ?row = "[''Vendor Code'' \<mapsto> PStr ''V001'', ''VENDOR_ID'' \<mapsto> PStr ''v-2'']"
  let ?ldef = "\<lparr>lookup_entity = ''VENDORS'',
       lookup_match = [\<lparr>rule_field = ''CODE'', rule_from = ''Vendor Code''\<rparr>],
       lookup_optional = False\<rparr>"
  have h: "(''VENDOR_ID'', ?ldef) \<in> set vendor_lookup" "lookup_entity ?ldef \<noteq> []"
    "?row ''VENDOR_ID'' = Some (PStr ''v-2'')" "truthy (PStr ''v-2'')"
    "is_ascii (py_str (PStr ''v-2''))"
    by (simp_all add: vendor_lookup_def is_ascii_def)
  have keys: "map fst (fst (resolve_all_fks vendors_resolver ''SERVICEORDERS'' vendor_lookup ?row))
              = [''VENDOR_ID'']"
    by (simp add: resolver_eval)
  have lk: "fst (lookup_id vendors_resolver ''VENDORS'' (lookup_match (snd (hd vendor_lookup))) ?row)
            = Some ''v-1''"
    by (simp add: resolver_eval)
  have s: "py_strip (py_str (PStr ''v-2'')) = ''v-2''"
    by (simp add: py_strip_def is_space_def)
  from resolve_all_fks_passthrough
         [where excel_row = "?row" and self = vendors_resolver and entity = "''SERVICEORDERS''", OF h]
  have "map_of (fst (resolve_all_fks vendors_resolver ''SERVICEORDERS'' vendor_lookup ?row))
          ''VENDOR_ID'' = Some (Some ''v-2'')"
    by (simp only: s)
  with keys have "fst (resolve_all_fks vendors_resolver ''SERVICEORDERS'' vendor_lookup ?row)
                  = [(''VENDOR_ID'', Some ''v-2'')]"
    by (cases "fst (resolve_all_fks vendors_resolver ''SERVICEORDERS'' vendor_lookup ?row)")
       (auto split: if_splits)
  with lk show ?thesis by simp
qed

text \<open>
  The claim as written fails twice. A non-blank identifier with surrounding blanks is not
  returned verbatim but trimmed; and a non-blank value that Python counts as false (the
  number 0) is not passed through at all: the natural-key lookup runs and its result is
  returned.
\<close>

theorem resolve_all_fks_verbatim_counterexample:
  "\<not> is_blank (PStr '' v-2 '') \<and> \<not> is_blank (PInt 0)
   \<and> fst (resolve_all_fks vendors_resolver ''SERVICEORDERS'' vendor_lookup
           [''Vendor Code'' \<mapsto> PStr ''V001'', ''VENDOR_ID'' \<mapsto> PStr '' v-2 ''])
       = [(''VENDOR_ID'', Some ''v-2'')]
   \<and> fst (resolve_all_fks vendors_resolver ''SERVICEORDERS'' vendor_lookup
           [''Vendor Code'' \<mapsto> PStr ''V001'', ''VENDOR_ID'' \<mapsto> PInt 0])
       = [(''VENDOR_ID'', Some ''v-1'')]"
  by (simp add: resolver_eval)

section \<open>Type coercion\<close>

lemma boolean_branch:
  assumes "is_boolean_type ftype" "\<not> is_blank v"
  shows "validate_type lib fname v ftype = Inr (to_bool fname v)"
  using assms by (simp add: validate_type_def is_blank_def is_boolean_type_def Let_def)

lemma to_bool_vocabulary:
  assumes "py_lower (py_strip (py_str v)) \<noteq> []"
  shows "(py_lower (py_strip (py_str v)) \<in> set [''true'', ''1'', ''yes'', ''t'', ''y'']
              \<longrightarrow> to_bool fname v = (PBool True, None))
         \<and> (py_lower (py_strip (py_str v)) \<in> set [''false'', ''0'', ''no'', ''f'', ''n'']
              \<longrightarrow> to_bool fname v = (PBool False, None))
         \<and> (py_lower (py_strip (py_str v))
               \<notin> set [''true'', ''1'', ''yes'', ''t'', ''y'', ''false'', ''0'', ''no'', ''f'', ''n'']
              \<longrightarrow> (\<exists>msg. to_bool fname v = (PNone, Some msg)))"
proof (cases v)
  case (PBool x)
  then show ?thesis
    by (cases x) (simp_all add: to_bool_def py_strip_def is_space_def py_lower_def lower_char_def
        ascii_lowercase_def ascii_uppercase_def)
qed (use assms in \<open>auto simp: to_bool_def Let_def\<close>)

text \<open>
  C9, as the code has it, for values and type names written in ASCII. A blank or absent
  value coerces to \<open>None\<close> without an error, whatever the type, the empty string under a
  boolean type included. For a field whose type reaches the Boolean branch of
  \<open>validate_type\<close> (the type text contains \<open>BOOLEAN\<close>, in any case, and none of the earlier
  branches takes it) and a value that is not blank, the trimmed, lower-cased text of the
  value decides: \<open>true\<close>, \<open>1\<close>, \<open>yes\<close>, \<open>t\<close>, \<open>y\<close> give \<open>True\<close>; \<open>false\<close>, \<open>0\<close>, \<open>no\<close>,
  \<open>f\<close>, \<open>n\<close> give \<open>False\<close>; anything else gives an error and no value.
\<close>

theorem validate_type_boolean:
  assumes "is_ascii (py_str v)"
  shows "(is_blank v \<longrightarrow> validate_type lib fname v ftype = Inr (PNone, None))
   \<and> (is_ascii ftype \<and> is_boolean_type ftype \<and> \<not> is_blank v \<longrightarrow>
        (let str_val = py_lower (py_strip (py_str v)) in
           (str_val \<in> set [''true'', ''1'', ''yes'', ''t'', ''y'']
              \<longrightarrow> validate_type lib fname v ftype = Inr (PBool True, None))
         \<and> (str_val \<in> set [''false'', ''0'', ''no'', ''f'', ''n'']
              \<longrightarrow> validate_type lib fname v ftype = Inr (PBool False, None))
         \<and> (str_val \<notin> set [''true'', ''1'', ''yes'', ''t'', ''y'', ''false'', ''0'', ''no'', ''f'', ''n'']
              \<longrightarrow> (\<exists>msg. validate_type lib fname v ftype = Inr (PNone, Some msg)))))"
proof (intro conjI impI)
  assume "is_blank v"
  then show "validate_type lib fname v ftype = Inr (PNone, None)"
    by (simp add: validate_type_def is_blank_def)
next
  assume a: "is_ascii ftype \<and> is_boolean_type ftype \<and> \<not> is_blank v"
  then have b: "validate_type lib fname v ftype = Inr (to_bool fname v)"
    by (simp add: boolean_branch)
  from a have ne: "py_lower (py_strip (py_str v)) \<noteq> []"
    by (simp add: is_blank_def py_lower_def)
  from to_bool_vocabulary [OF ne, of fname]
  show "let str_val = py_lower (py_strip (py_str v)) in
           (str_val \<in> set [''true'', ''1'', ''yes'', ''t'', ''y'']
              \<longrightarrow> validate_type lib fname v ftype = Inr (PBool True, None))
         \<and> (str_val \<in> set [''false'', ''0'', ''no'', ''f'', ''n'']
              \<longrightarrow> validate_type lib fname v ftype = Inr (PBool False, None))
         \<and> (str_val \<notin> set [''true'', ''1'', ''yes'', ''t'', ''y'', ''false'', ''0'', ''no'', ''f'', ''n'']
              \<longrightarrow> (\<exists>msg. validate_type lib fname v ftype = Inr (PNone, Some msg)))"
    unfolding b Let_def by simp
qed

lemmas validate_eval =
  validate_type_def to_bool_def is_blank_def py_strip_def is_space_def py_lower_def lower_char_def
  ascii_lowercase_def ascii_uppercase_def py_upper_def upper_char_def startswith_def Let_def
  str_of_int_def str_of_nat.simps digit_char_def is_ascii_def is_boolean_type_def

theorem validate_type_boolean_witness:
  "validate_type failing_pylib ''ACTIVE'' (PStr '' Yes '') ''Boolean default true''
     = Inr (PBool True, None)
   \<and> validate_type failing_pylib ''ACTIVE'' (PInt 0) ''Boolean'' = Inr (PBool False, None)
   \<and> (\<exists>msg. validate_type failing_pylib ''ACTIVE'' (PStr ''maybe'') ''Boolean'' = Inr (PNone, Some msg))
   \<and> validate_type failing_pylib ''QUANTITY'' (PStr ''  '') ''Integer'' = Inr (PNone, None)"
proof -
  have t: "is_ascii ''Boolean'' \<and> is_boolean_type ''Boolean''"
    "is_ascii ''Boolean default true'' \<and> is_boolean_type ''Boolean default true''"
    by (simp_all add: validate_eval)
  have yes: "is_ascii (py_str (PStr '' Yes ''))"
    "\<not> is_blank (PStr '' Yes '') \<and> py_lower (py_strip (py_str (PStr '' Yes ''))) = ''yes''"
    by (simp_all add: validate_eval)
  have zero: "is_ascii (py_str (PInt 0))"
    "\<not> is_blank (PInt 0) \<and> py_lower (py_strip (py_str (PInt 0))) = ''0''"
    by (simp_all add: validate_eval)
  have maybe: "is_ascii (py_str (PStr ''maybe''))"
    "\<not> is_blank (PStr ''maybe'') \<and> py_lower (py_strip (py_str (PStr ''maybe''))) = ''maybe''"
    by (simp_all add: validate_eval)
  have blank: "is_ascii (py_str (PStr ''  ''))" "is_blank (PStr ''  '')"
    by (simp_all add: validate_eval)
  from validate_type_boolean [OF yes(1), of failing_pylib "''ACTIVE''" "''Boolean default true''"]
       t(2) yes(2)
  have 1: "validate_type failing_pylib ''ACTIVE'' (PStr '' Yes '') ''Boolean default true''
             = Inr (PBool True, None)"
    by (simp add: Let_def)
  from validate_type_boolean [OF zero(1), of failing_pylib "''ACTIVE''" "''Boolean''"] t(1) zero(2)
  have 2: "validate_type failing_pylib ''ACTIVE'' (PInt 0) ''Boolean'' = Inr (PBool False, None)"
    by (simp add: Let_def)
  from validate_type_boolean [OF maybe(1), of failing_pylib "''ACTIVE''" "''Boolean''"] t(1) maybe(2)
  have 3: "\<exists>msg. validate_type failing_pylib ''ACTIVE'' (PStr ''maybe'') ''Boolean'' = Inr (PNone, Some msg)"
    by (simp add: Let_def)
  from validate_type_boolean [OF blank(1), of failing_pylib "''QUANTITY''" "''Integer''"] blank(2)
  have 4: "validate_type failing_pylib ''QUANTITY'' (PStr ''  '') ''Integer'' = Inr (PNone, None)"
    by simp
  from 1 2 3 4 show ?thesis by simp
qed

text \<open>
  The claim as written fails on the empty string: under a boolean type it coerces to
  \<open>None\<close>, not to \<open>False\<close>; the blank test at the head of \<open>validate_type\<close> returns before the
  vocabulary is consulted.
\<close>

theorem validate_type_empty_boolean_counterexample:
  "validate_type failing_pylib ''ACTIVE'' (PStr []) ''Boolean'' = Inr (PNone, None)
   \<and> validate_type failing_pylib ''ACTIVE'' (PStr []) ''Boolean'' \<noteq> Inr (PBool False, None)"
  by (simp add: validate_eval)

section \<open>Appending staged rows\<close>

lemma digit_char_no_slash: "d < 10 \<Longrightarrow> digit_char d \<noteq> CHR ''/''"
proof -
  assume "d < 10"
  then have "d \<in> {0,1,2,3,4,5,6,7,8,9}" by auto
  then show ?thesis by (auto simp: digit_char_def)
qed

lemma str_of_nat_no_slash: "CHR ''/'' \<notin> set (str_of_nat n)"
proof (induction n rule: str_of_nat.induct)
  case (1 n)
  show ?case
  proof (cases "n < 10")
    case True
    then show ?thesis using digit_char_no_slash [of n] by (simp add: str_of_nat.simps [of n])
  next
    case False
    have "n mod 10 < 10" by simp
    from digit_char_no_slash [OF this] 1 False show ?thesis
      by (simp add: str_of_nat.simps [of n])
  qed
qed

lemma zero_pad_no_slash: "CHR ''/'' \<notin> set (zero_pad w n)"
  by (auto simp: zero_pad_def str_of_nat_no_slash)

lemma timestamp_no_slash: "CHR ''/'' \<notin> set (timestamp now)"
  by (simp add: timestamp_def zero_pad_no_slash)

lemma path_name_no_slash: "CHR ''/'' \<notin> set (path_name p)"
  by (auto simp: path_name_def dest: set_takeWhileD)

lemma stem_of_split: "\<exists>suffix. name = stem_of name @ suffix \<and> (suffix = [] \<or> hd suffix = CHR ''.'')"
proof (cases "dropWhile (\<lambda>c. c \<noteq> CHR ''.'') (rev name)")
  case Nil
  have "stem_of name = name" unfolding stem_of_def Nil by simp
  then show ?thesis by simp
next
  case (Cons dot before)
  then have dot: "dot = CHR ''.''"
    using hd_dropWhile [of "\<lambda>c. c \<noteq> CHR ''.''" "rev name"] by auto
  have "rev name = takeWhile (\<lambda>c. c \<noteq> CHR ''.'') (rev name) @ dot # before"
    using takeWhile_dropWhile_id [of "\<lambda>c. c \<noteq> CHR ''.''" "rev name"] Cons by simp
  then have "rev (rev name) = rev (takeWhile (\<lambda>c. c \<noteq> CHR ''.'') (rev name) @ dot # before)"
    by simp
  then have n: "name = rev before @ CHR ''.'' # rev (takeWhile (\<lambda>c. c \<noteq> CHR ''.'') (rev name))"
    using dot by simp
  show ?thesis
  proof (cases "before = [] \<or> takeWhile (\<lambda>c. c \<noteq> CHR ''.'') (rev name) = []")
    case True
    then have "stem_of name = name" using Cons by (auto simp: stem_of_def)
    then show ?thesis by simp
  next
    case False
    then have "stem_of name = rev before" using Cons by (auto simp: stem_of_def)
    with n show ?thesis by (metis list.sel(1))
  qed
qed

lemma stem_of_subset: "set (stem_of name) \<subseteq> set name"
  using stem_of_split [of name] by (metis set_append sup_ge1)

lemma path_name_join:
  assumes "CHR ''/'' \<notin> set name"
  shows "path_name (path_join dir name) = name"
proof -
  have "takeWhile (\<lambda>c. c \<noteq> CHR ''/'') (rev name @ CHR ''/'' # rev dir) = rev name"
    using assms by (subst takeWhile_append2) auto
  then show ?thesis by (simp add: path_name_def path_join_def)
qed

lemma backup_path_differs: "backup_path_of self now csv_path \<noteq> csv_path"
proof
  let ?name = "path_stem csv_path @ ''_'' @ timestamp now @ ''.bak.csv''"
  assume eq: "backup_path_of self now csv_path = csv_path"
  have "CHR ''/'' \<notin> set (path_stem csv_path)"
    using stem_of_subset [of "path_name csv_path"] path_name_no_slash [of csv_path]
    by (auto simp: path_stem_def)
  then have "CHR ''/'' \<notin> set ?name" by (simp add: timestamp_no_slash)
  then have "path_name (backup_path_of self now csv_path) = ?name"
    unfolding backup_path_of_def by (rule path_name_join)
  with eq have n: "path_name csv_path = stem_of (path_name csv_path) @ ''_'' @ timestamp now @ ''.bak.csv''"
    by (simp add: path_stem_def)
  obtain suffix where s: "path_name csv_path = stem_of (path_name csv_path) @ suffix"
    "suffix = [] \<or> hd suffix = CHR ''.''"
    using stem_of_split by blast
  from n s(1) have "suffix = ''_'' @ timestamp now @ ''.bak.csv''"
    by (metis same_append_eq)
  with s(2) show False by simp
qed

lemma fold_cells_other:
  "key \<notin> fst ` set kvs \<Longrightarrow> fold (\<lambda>(key, cell) d. d(key \<mapsto> Some cell)) kvs d key = d key"
  by (induction kvs arbitrary: d) auto

lemma fold_restval_other:
  "key \<notin> set keys \<Longrightarrow> fold (\<lambda>key d. d(key \<mapsto> None)) keys d key = d key"
  by (induction keys arbitrary: d) auto

lemma dict_row_other:
  assumes "c \<notin> set fieldnames"
  shows "dict_row fieldnames rec c = None"
proof -
  from assms have 1: "c \<notin> set (drop (length rec) fieldnames)"
    by (auto dest: in_set_dropD)
  from assms have 2: "c \<notin> fst ` set (zip fieldnames rec)"
    by (auto dest: set_zip_leftD)
  show ?thesis
    unfolding dict_row_def by (simp add: fold_restval_other [OF 1] fold_cells_other [OF 2])
qed

lemma cell_of_other: "c \<notin> set fieldnames \<Longrightarrow> cell_of (dict_row fieldnames rec) c = []"
  by (simp add: cell_of_def dict_row_other)

lemma newline_char_ok:
  assumes "c = LF \<or> c = CR"
  shows "\<exists>self'. parse_process_char self (Some c) = Inr self'"
  using assms
  by (cases "rd_state self")
     (auto simp: parse_process_char_def start_field_def LF_def CR_def quotechar_def delimiter_def)

lemma other_char_ok:
  assumes "c \<noteq> LF" "c \<noteq> CR" "rd_state self \<noteq> EAT_CRNL"
  shows "\<exists>self'. parse_process_char self (Some c) = Inr self' \<and> rd_state self' \<noteq> EAT_CRNL"
  using assms
  by (cases "rd_state self")
     (auto simp: parse_process_char_def start_field_def parse_add_char_def parse_save_field_def)

lemma end_of_line_ok:
  "\<exists>self'. parse_process_char self None = Inr self' \<and> rd_state self' \<noteq> EAT_CRNL"
  by (cases "rd_state self")
     (auto simp: parse_process_char_def start_field_def end_of_field_def parse_save_field_def)

lemma process_line_ok:
  assumes "line_ok seen l" "rd_state self = EAT_CRNL \<longrightarrow> seen"
  shows "\<exists>self'. process_line self l = Inr self' \<and> rd_state self' \<noteq> EAT_CRNL"
  using assms
proof (induction l arbitrary: self seen)
  case Nil
  then show ?case by (simp add: end_of_line_ok)
next
  case (Cons c cs)
  show ?case
  proof (cases "c = LF \<or> c = CR")
    case True
    then obtain self1 where s: "parse_process_char self (Some c) = Inr self1"
      using newline_char_ok by blast
    from Cons.prems(1) True have "line_ok True cs" by simp
    from Cons.IH [OF this, of self1] s show ?thesis by simp
  next
    case False
    with Cons.prems have "\<not> seen" "line_ok False cs" "rd_state self \<noteq> EAT_CRNL" by auto
    with False obtain self1 where s: "parse_process_char self (Some c) = Inr self1"
      "rd_state self1 \<noteq> EAT_CRNL"
      using other_char_ok [of c self] by auto
    from Cons.IH [OF \<open>line_ok False cs\<close>, of self1] s show ?thesis by simp
  qed
qed

lemma line_ok_append:
  "\<forall>c \<in> set line. c \<noteq> LF \<and> c \<noteq> CR \<Longrightarrow> line_ok False (line @ rest) = line_ok False rest"
  by (induction line) auto

lemma split_lines_ok:
  "\<forall>c \<in> set line. c \<noteq> LF \<and> c \<noteq> CR \<Longrightarrow> \<forall>l \<in> set (split_lines line content). line_ok False l"
proof (induction line content rule: split_lines.induct)
  case (1 line)
  then show ?case using line_ok_append [of line "[]"] by auto
next
  case (2 line c)
  then show ?case using line_ok_append [of line "[c]"] by auto
next
  case (3 line c d cs)
  from "3.prems" have a: "line_ok False (line @ [c]) = line_ok False [c]"
    "line_ok False (line @ [c, d]) = line_ok False [c, d]"
    using line_ok_append [of line "[c]"] line_ok_append [of line "[c, d]"] by simp_all
  show ?case
  proof (cases "c = LF")
    case True
    with 3 a show ?thesis by auto
  next
    case nlf: False
    show ?thesis
    proof (cases "c = CR")
      case True
      with 3 a nlf show ?thesis by (cases "d = LF") auto
    next
      case False
      with 3 nlf show ?thesis by auto
    qed
  qed
qed

lemma reader_rows_ok:
  assumes "\<forall>l \<in> set lines. line_ok False l" "rd_state self \<noteq> EAT_CRNL"
  shows "snd (reader_rows self lines) = None"
  using assms
proof (induction lines arbitrary: self)
  case Nil
  then show ?case by simp
next
  case (Cons line rest)
  from Cons.prems obtain self1 where s: "process_line self line = Inr self1"
    "rd_state self1 \<noteq> EAT_CRNL"
    using process_line_ok [of False line self] by auto
  from Cons.prems have r: "\<forall>l \<in> set rest. line_ok False l" by simp
  have "snd (reader_rows parse_reset rest) = None"
    using r by (rule Cons.IH) (simp add: parse_reset_def)
  moreover have "snd (reader_rows self1 rest) = None"
    using r s(2) by (rule Cons.IH)
  ultimately show ?case using s(1) by (simp add: split_beta)
qed

text \<open>
  The reader raises no error on the text of a file: its lines end at their first
  terminator, so the only state that refuses a character is never given one.
\<close>

lemma csv_reader_no_error: "snd (csv_reader content) = None"
  unfolding csv_reader_def
  using split_lines_ok [of "[]" content] by (intro reader_rows_ok) (simp_all add: parse_reset_def)

lemma first_record_returns:
  "first_record content
   = Inr (case fst (csv_reader content) of [] \<Rightarrow> [] | header # _ \<Rightarrow> header)"
  using csv_reader_no_error [of content]
  by (simp add: first_record_def next_record_def split: list.splits)


lemma count_rows_returns:
  assumes "fs staged_file = Some staged" "fst (csv_reader staged) \<noteq> []"
  shows "count_rows fs staged_file = Inr (length (tl (fst (csv_reader staged))))"
  using assms csv_reader_no_error [of staged]
  by (simp add: count_rows_def next_record_def split: list.splits)

lemma reading_staged:
  assumes "fst (csv_reader staged) \<noteq> []"
  shows "\<exists>rows. dict_reader staged = (rows, None)"
  using assms csv_reader_no_error [of staged]
  by (cases "csv_reader staged") (simp add: dict_reader_def split: list.splits)

text \<open>
  What a run without faults does to an existing target: the text of the rows goes after
  the text the target holds, whatever that text ends with.
\<close>

lemma append_entity_appends_text:
  assumes "fs csv_file = Some old" "fs staged_file = Some staged"
          "fst (csv_reader staged) \<noteq> []"
          "staged_file \<noteq> backup_path_of self now csv_file"
  shows "append_entity self now no_faults fs entity csv_file staged_file
         = (Inr \<lparr>result_entity = entity, appended = length (tl (fst (csv_reader staged))),
                  backup = Some (backup_path_of self now csv_file), error = None\<rparr>,
            (fs(backup_path_of self now csv_file \<mapsto> old))
              (csv_file \<mapsto> old @ rows_text (case fst (csv_reader old) of [] \<Rightarrow> [] | h # _ \<Rightarrow> h)
                                      (fst (dict_reader staged))))"
proof -
  let ?bp = "backup_path_of self now csv_file"
  let ?fs1 = "fs(?bp \<mapsto> old)"
  let ?H = "case fst (csv_reader old) of [] \<Rightarrow> [] | h # _ \<Rightarrow> h"
  let ?SH = "case fst (csv_reader staged) of [] \<Rightarrow> [] | h # _ \<Rightarrow> h"
  have bp: "?bp \<noteq> csv_file" by (rule backup_path_differs)
  have h: "get_headers fs csv_file staged_file = Inr (?H, ?SH)"
    using assms(1,2) by (simp add: get_headers_def first_record_returns)
  have b: "backup_csv self now (backup_fault no_faults) fs csv_file = (Inr (Some ?bp), ?fs1)"
    using assms(1) by (simp add: backup_csv_def copy2_def write_file_def no_faults_def Let_def)
  have s1: "?fs1 staged_file = Some staged" "?fs1 csv_file = Some old"
    using assms(1,2,4) bp by simp_all
  have c: "count_rows ?fs1 staged_file = Inr (length (tl (fst (csv_reader staged))))"
    using s1(1) assms(3) by (rule count_rows_returns)
  obtain rows where r: "dict_reader staged = (rows, None)"
    using reading_staged [OF assms(3)] by blast
  have w: "write_rows (write_fault no_faults) ?fs1 csv_file staged_file ?H ?SH
           = (None, ?fs1(csv_file \<mapsto> old @ rows_text ?H rows))"
    using s1 r by (simp add: write_rows_def append_file_def no_faults_def)
  show ?thesis
    using assms(2) h b c w r by (simp add: append_entity_def)
qed

lemmas csv_eval =
  csv_reader_def split_lines.simps reader_rows.simps process_line.simps parse_process_char_def
  start_field_def end_of_field_def parse_add_char_def parse_save_field_def parse_reset_def
  delimiter_def quotechar_def CR_def LF_def lineterminator_def next_record_def Let_def

lemmas append_eval =
  append_entity_def backup_csv_def copy2_def write_file_def append_file_def restore_backup_def
  backup_path_of_def path_join_def
  path_stem_def path_name_def stem_of_def timestamp_def zero_pad_def digit_char_def
  str_of_nat.simps get_headers_def first_record_def count_rows_def write_rows_def rows_text_def
  dict_reader_def dict_row_def out_record_def cell_of_def writerow_def join_append_def
  needs_quotes_def no_faults_def example_fs_def unterminated_fs_def staged_text_def
  vendors_csv_def staged_vendors_def example_now_def example_writer_def

lemma staged_text_rows:
  "csv_reader staged_text
   = ([[''ID'', ''NAME'', ''CODE'', ''RATING''], [''v-2'', ''Bolt'', ''V002'', ''5''],
       [''v-3'', ''Cog'', ''V003'', ''4'']], None)"
  by (simp add: csv_eval staged_text_def)

lemma staged_rows_text:
  "rows_text [''ID'', ''CODE'', ''NAME'', ''CITY''] (fst (dict_reader staged_text))
   = ''v-2,V002,Bolt,'' @ lineterminator @ ''v-3,V003,Cog,'' @ lineterminator"
  by (simp add: dict_reader_def staged_text_rows rows_text_def out_record_def cell_of_def
        dict_row_def writerow_def join_append_def needs_quotes_def delimiter_def quotechar_def
        CR_def LF_def lineterminator_def)

text \<open>
  On a target that ends with a line terminator the append does what C7 says: the header
  stays, the old row stays, and the two staged rows follow it, with the staged column
  \<open>RATING\<close> left out and the column \<open>CITY\<close>, which the staged file lacks, blank.
\<close>

lemma append_entity_terminated_target:
  "map_option csv_reader
     (snd (append_entity example_writer example_now no_faults example_fs ''VENDORS''
             vendors_csv staged_vendors) vendors_csv)
   = Some ([[''ID'', ''CODE'', ''NAME'', ''CITY''], [''v-1'', ''V001'', ''Acme'', ''Pune''],
            [''v-2'', ''V002'', ''Bolt'', []], [''v-3'', ''V003'', ''Cog'', []]], None)"
proof -
  let ?old = "''ID,CODE,NAME,CITY'' @ lineterminator @ ''v-1,V001,Acme,Pune'' @ lineterminator"
  let ?new = "''v-2,V002,Bolt,'' @ lineterminator @ ''v-3,V003,Cog,'' @ lineterminator"
  have h: "example_fs vendors_csv = Some ?old" "example_fs staged_vendors = Some staged_text"
    "fst (csv_reader staged_text) \<noteq> []"
    "staged_vendors \<noteq> backup_path_of example_writer example_now vendors_csv"
    by (simp_all add: example_fs_def vendors_csv_def staged_vendors_def staged_text_rows
          backup_path_of_def path_join_def example_writer_def)
  have o: "csv_reader ?old
           = ([[''ID'', ''CODE'', ''NAME'', ''CITY''], [''v-1'', ''V001'', ''Acme'', ''Pune'']], None)"
    by (simp add: csv_eval)
  note run = append_entity_appends_text
         [where fs = example_fs and csv_file = vendors_csv and staged_file = staged_vendors
            and self = example_writer and now = example_now and entity = "''VENDORS''", OF h]
  have target: "snd (append_entity example_writer example_now no_faults example_fs ''VENDORS''
               vendors_csv staged_vendors) vendors_csv = Some (?old @ ?new)"
    unfolding run o fst_conv snd_conv list.case staged_rows_text fun_upd_same by (rule refl)
  have new: "csv_reader (?old @ ?new)
             = ([[''ID'', ''CODE'', ''NAME'', ''CITY''], [''v-1'', ''V001'', ''Acme'', ''Pune''],
                 [''v-2'', ''V002'', ''Bolt'', []], [''v-3'', ''V003'', ''Cog'', []]], None)"
    by (simp add: csv_eval)
  show ?thesis unfolding target option.map new by (rule refl)
qed

text \<open>
  C7 fails on a target whose last record has no line terminator: mode \<open>a\<close> puts the first
  new row directly after the last character of the file. The run reports two rows
  appended and no error; the target then reads as its header and two data rows, not three,
  and its old row \<open>v-1\<close> has become a row of seven cells that ends with the cells of the
  first staged row.
\<close>

theorem append_entity_unterminated_target:
  "fst (append_entity example_writer example_now no_faults unterminated_fs ''VENDORS''
          vendors_csv staged_vendors)
   = Inr \<lparr>result_entity = ''VENDORS'', appended = 2,
          backup = Some ''backups/CCTECH.DRS.ENTITIES-VENDORS_20250309_140500.bak.csv'',
          error = None\<rparr>
   \<and> map_option csv_reader (unterminated_fs vendors_csv)
     = Some ([[''ID'', ''CODE'', ''NAME'', ''CITY''], [''v-1'', ''V001'', ''Acme'', ''Pune'']], None)
   \<and> map_option csv_reader
       (snd (append_entity example_writer example_now no_faults unterminated_fs ''VENDORS''
               vendors_csv staged_vendors) vendors_csv)
     = Some ([[''ID'', ''CODE'', ''NAME'', ''CITY''],
              [''v-1'', ''V001'', ''Acme'', ''Punev-2'', ''V002'', ''Bolt'', []],
              [''v-3'', ''V003'', ''Cog'', []]], None)"
proof -
  let ?old = "''ID,CODE,NAME,CITY'' @ lineterminator @ ''v-1,V001,Acme,Pune''"
  let ?new = "''v-2,V002,Bolt,'' @ lineterminator @ ''v-3,V003,Cog,'' @ lineterminator"
  have h: "unterminated_fs vendors_csv = Some ?old"
    "unterminated_fs staged_vendors = Some staged_text"
    "fst (csv_reader staged_text) \<noteq> []"
    "staged_vendors \<noteq> backup_path_of example_writer example_now vendors_csv"
    by (simp_all add: unterminated_fs_def vendors_csv_def staged_vendors_def staged_text_rows
          backup_path_of_def path_join_def example_writer_def)
  have o: "csv_reader ?old
           = ([[''ID'', ''CODE'', ''NAME'', ''CITY''], [''v-1'', ''V001'', ''Acme'', ''Pune'']], None)"
    by (simp add: csv_eval)
  have bp: "backup_path_of example_writer example_now vendors_csv
            = ''backups/CCTECH.DRS.ENTITIES-VENDORS_20250309_140500.bak.csv''"
    by (simp add: append_eval)
  have n: "length (tl (fst (csv_reader staged_text))) = 2"
    by (simp add: staged_text_rows)
  note run = append_entity_appends_text
         [where fs = unterminated_fs and csv_file = vendors_csv and staged_file = staged_vendors
            and self = example_writer and now = example_now and entity = "''VENDORS''", OF h]
  have result: "fst (append_entity example_writer example_now no_faults unterminated_fs
                       ''VENDORS'' vendors_csv staged_vendors)
                = Inr \<lparr>result_entity = ''VENDORS'', appended = 2,
                       backup = Some ''backups/CCTECH.DRS.ENTITIES-VENDORS_20250309_140500.bak.csv'',
                       error = None\<rparr>"
    unfolding run fst_conv n bp by (rule refl)
  have before: "map_option csv_reader (unterminated_fs vendors_csv)
                = Some ([[''ID'', ''CODE'', ''NAME'', ''CITY''],
                         [''v-1'', ''V001'', ''Acme'', ''Pune'']], None)"
    unfolding h(1) option.map o by (rule refl)
  have target: "snd (append_entity example_writer example_now no_faults unterminated_fs
                       ''VENDORS'' vendors_csv staged_vendors) vendors_csv
                = Some (?old @ ?new)"
    unfolding run o fst_conv snd_conv list.case staged_rows_text fun_upd_same by (rule refl)
  have new: "csv_reader (?old @ ?new)
             = ([[''ID'', ''CODE'', ''NAME'', ''CITY''],
                 [''v-1'', ''V001'', ''Acme'', ''Punev-2'', ''V002'', ''Bolt'', []],
                 [''v-3'', ''V003'', ''Cog'', []]], None)"
    by (simp add: csv_eval)
  have after: "map_option csv_reader
                 (snd (append_entity example_writer example_now no_faults unterminated_fs
                         ''VENDORS'' vendors_csv staged_vendors) vendors_csv)
               = Some ([[''ID'', ''CODE'', ''NAME'', ''CITY''],
                        [''v-1'', ''V001'', ''Acme'', ''Punev-2'', ''V002'', ''Bolt'', []],
                        [''v-3'', ''V003'', ''Cog'', []]], None)"
    unfolding target option.map new by (rule refl)
  from result before after show ?thesis by (intro conjI)
qed




text \<open>
  With a target that cannot be opened for writing, the write and the restoring copy both
  raise: the target keeps its text, but \<open>append_entity\<close> raises instead of returning an
  error result.
\<close>

lemma append_entity_locked_target:
  "fst (append_entity example_writer example_now
          \<lparr>backup_fault = None, write_fault = Some (None, ''Permission denied''),
           restore_fault = Some (None, ''Permission denied'')\<rparr>
          example_fs ''VENDORS'' vendors_csv staged_vendors)
   = Inl ''Permission denied''"
  by (simp add: append_eval csv_eval)

section \<open>The passes of staging\<close>

lemma stage_first_keys:
  assumes "stage_first eng (results, w) entity = (results', w')" "keys_ok eng results"
  shows "keys_ok eng results'"
proof (cases "entity_to_config (mapping_sheets eng) entity")
  case None
  with assms show ?thesis by (simp add: stage_first_def)
next
  case (Some cfg)
  obtain result w1 where s: "stage_entity eng w entity cfg = (result, w1)"
    by (cases "stage_entity eng w entity cfg")
  from assms(1) Some s have r: "results' = dict_set results entity result"
    by (simp_all add: stage_first_def)
  from assms(2) Some show "keys_ok eng results'"
    unfolding keys_ok_def r keys_dict_set by auto
qed

lemma pass_one_keys:
  assumes "keys_ok eng (fst st)"
  shows "keys_ok eng (fst (foldl (stage_first eng) st order))"
  using assms
proof (induction order arbitrary: st)
  case Nil
  then show ?case by simp
next
  case (Cons entity order)
  obtain results w where st: "st = (results, w)" by (cases st)
  obtain r1 w1 where s: "stage_first eng (results, w) entity = (r1, w1)"
    by (cases "stage_first eng (results, w) entity")
  from Cons.prems st have "keys_ok eng results" by simp
  with s have "keys_ok eng r1" by (rule stage_first_keys)
  then have "keys_ok eng (fst (foldl (stage_first eng) (r1, w1) order))"
    by (intro Cons.IH) simp
  with st s show ?case by simp
qed

lemma fk_entities_keys: "set (entities_with_fk_errors results) \<subseteq> fst ` set results"
  by (auto simp: entities_with_fk_errors_def)

lemma total_errors_defined:
  "set es \<subseteq> fst ` set results \<Longrightarrow> \<exists>n. total_errors results es = Inr n"
proof (induction es)
  case Nil then show ?case by simp
next
  case (Cons e es)
  then obtain n where "total_errors results es = Inr n" by auto
  moreover from Cons.prems obtain r where "map_of results e = Some r"
    by (cases "map_of results e") (auto simp: map_of_eq_None_iff)
  ultimately show ?case by simp
qed

lemma restage_defined:
  assumes "set es \<subseteq> dom (entity_to_config (mapping_sheets eng))"
  shows "\<exists>results' w'. restage eng es (results, w) = Inr (results', w')
         \<and> fst ` set results' = fst ` set results \<union> set es"
  using assms
proof (induction es arbitrary: results w)
  case Nil then show ?case by simp
next
  case (Cons entity rest)
  then obtain cfg where c: "entity_to_config (mapping_sheets eng) entity = Some cfg" by auto
  obtain result w1 where s: "stage_entity eng w entity cfg = (result, w1)"
    by (cases "stage_entity eng w entity cfg")
  from Cons.prems have "set rest \<subseteq> dom (entity_to_config (mapping_sheets eng))" by simp
  from Cons.IH [OF this, of "dict_set results entity result" w1]
  obtain results' w' where
    r: "restage eng rest (dict_set results entity result, w1) = Inr (results', w')"
    "fst ` set results' = fst ` set (dict_set results entity result) \<union> set rest" by blast
  show ?case
    using c s r by (intro exI [of _ results'] exI [of _ w']) (auto simp: keys_dict_set)
qed

lemma pass_consistent_totals:
  "pass_consistent eng p \<Longrightarrow>
   total_errors_before p = sum_error_count (results_before p) (restaged p)"
  by (simp add: pass_consistent_def)

lemma total_errors_sum:
  "total_errors results es = Inr n \<Longrightarrow> n = sum_error_count results es"
proof (induction es arbitrary: n)
  case Nil
  then show ?case by (simp add: sum_error_count_def)
next
  case (Cons e es)
  then show ?case
    by (auto simp: sum_error_count_def split: option.splits sum.splits)
qed

lemma restage_loop_ok:
  assumes "Suc max_passes - p = k" "keys_ok eng results"
  shows "\<exists>results' w' ext. restage_loop eng p (results, w, passes) = Inr (results', w', passes @ ext)
           \<and> loop_ok k results' ext
           \<and> list_all (pass_consistent eng) ext
           \<and> chained (results, w) ext (results', w')"
  using assms
proof (induction k arbitrary: p results w passes)
  case 0
  then have "\<not> p \<le> max_passes" by simp
  then have "restage_loop eng p (results, w, passes) = Inr (results, w, passes @ [])"
    by (simp add: restage_loop.simps)
  moreover have "loop_ok 0 results []" by (simp add: loop_ok_def)
  moreover have "list_all (pass_consistent eng) []" "chained (results, w) [] (results, w)"
    by simp_all
  ultimately show ?case by blast
next
  case (Suc k)
  then have p: "p \<le> max_passes" and k: "Suc max_passes - (p + 1) = k" by simp_all
  let ?es = "entities_with_fk_errors results"
  show ?case
  proof (cases "?es = []")
    case True
    with p have "restage_loop eng p (results, w, passes) = Inr (results, w, passes @ [])"
      by (simp add: restage_loop.simps)
    moreover from True have "loop_ok (Suc k) results []" by (simp add: loop_ok_def)
    moreover have "list_all (pass_consistent eng) []" "chained (results, w) [] (results, w)"
      by simp_all
    ultimately show ?thesis by blast
  next
    case False
    let ?w1 = "new_transformer eng w"
    have sub: "set ?es \<subseteq> fst ` set results" by (rule fk_entities_keys)
    with Suc.prems(2) have dom: "set ?es \<subseteq> dom (entity_to_config (mapping_sheets eng))"
      by (auto simp: keys_ok_def)
    from total_errors_defined [OF sub] obtain before where b: "total_errors results ?es = Inr before" ..
    from restage_defined [OF dom, of results ?w1] obtain results2 w2 where
      r: "restage eng ?es (results, ?w1) = Inr (results2, w2)"
      and keys2: "fst ` set results2 = fst ` set results \<union> set ?es" by blast
    from keys2 sub have sub2: "set ?es \<subseteq> fst ` set results2" by auto
    from keys2 sub Suc.prems(2) have ok2: "keys_ok eng results2" by (auto simp: keys_ok_def)
    from total_errors_defined [OF sub2] obtain after where a: "total_errors results2 ?es = Inr after" ..
    let ?rec = "\<lparr>pass_number = p, restaged = ?es,
                 total_errors_before = before, total_errors_after = after,
                 results_before = results, world_before = w,
                 results_after = results2, world_after = w2\<rparr>"
    have con: "pass_consistent eng ?rec"
      using False r total_errors_sum [OF b] total_errors_sum [OF a]
      by (simp add: pass_consistent_def)
    show ?thesis
    proof (cases "after \<ge> before")
      case True
      from p False b r a True
      have "restage_loop eng p (results, w, passes) = Inr (results2, w2, passes @ [?rec])"
        by (simp add: restage_loop.simps)
      moreover have "loop_ok (Suc k) results2 [?rec]"
        using True False by (simp add: loop_ok_def)
      moreover have "list_all (pass_consistent eng) [?rec]" using con by simp
      moreover have "chained (results, w) [?rec] (results2, w2)" by simp
      ultimately show ?thesis by blast
    next
      case False2: False
      from Suc.IH [OF k ok2, of w2 "passes @ [?rec]"] obtain results' w' ext' where
        l: "restage_loop eng (p + 1) (results2, w2, passes @ [?rec])
              = Inr (results', w', (passes @ [?rec]) @ ext')"
        and ok: "loop_ok k results' ext'"
        and cons: "list_all (pass_consistent eng) ext'"
        and ch: "chained (results2, w2) ext' (results', w')" by blast
      from p False b r a False2 l
      have "restage_loop eng p (results, w, passes) = Inr (results', w', passes @ ?rec # ext')"
        by (simp add: restage_loop.simps)
      moreover have "loop_ok (Suc k) results' (?rec # ext')"
        using ok False False2 by (auto simp: loop_ok_def)
      moreover have "list_all (pass_consistent eng) (?rec # ext')" using con cons by simp
      moreover have "chained (results, w) (?rec # ext') (results', w')" using ch by simp
      ultimately show ?thesis by blast
    qed
  qed
qed

text \<open>
  C2. \<open>stage_all\<close> returns, after at most 5 passes in all (pass 1 and the passes on
  record). If it ran fewer than 5, it stopped because no result has a foreign-key error
  any more, or because the last pass did not lower the total error count of the entities
  it staged again. And it stops as soon as either holds: every pass after the first found
  entities with foreign-key errors to stage again, and every pass but the last lowered
  their total error count. The totals compared are the sums of \<open>error_count\<close> over the
  entities staged again, in the results as the pass began and as it ended; each pass
  staged again exactly the entities whose results had foreign-key errors; and the passes
  lead from the results of pass 1 to the results returned.
\<close>

theorem stage_all_passes:
  "\<exists>results w' passes.
     stage_all eng w = Inr (results, w', passes)
     \<and> total_passes passes \<le> 5
     \<and> (total_passes passes < 5 \<longrightarrow>
          entities_with_fk_errors results = []
          \<or> (passes \<noteq> [] \<and> total_errors_before (last passes) \<le> total_errors_after (last passes)))
     \<and> (\<forall>r \<in> set passes. restaged r \<noteq> [])
     \<and> (\<forall>r \<in> set (butlast passes). total_errors_after r < total_errors_before r)
     \<and> list_all (pass_consistent eng) passes
     \<and> chained (foldl (stage_first eng) ([], w) (schema_ingestionOrder eng)) passes (results, w')"
proof -
  obtain results1 w1 where f: "foldl (stage_first eng) ([], w) (schema_ingestionOrder eng) = (results1, w1)"
    by (cases "foldl (stage_first eng) ([], w) (schema_ingestionOrder eng)")
  have "keys_ok eng (fst (([], w) :: (string \<times> stage_result) list \<times> 'a))" by (simp add: keys_ok_def)
  then have "keys_ok eng (fst (foldl (stage_first eng) ([], w) (schema_ingestionOrder eng)))"
    by (rule pass_one_keys)
  with f have k: "keys_ok eng results1" by simp
  have "Suc max_passes - 2 = 4" by (simp add: max_passes_def)
  from restage_loop_ok [OF this k, of w1 "[]"] obtain results w' ext where
    l: "restage_loop eng 2 (results1, w1, []) = Inr (results, w', ext)" and ok: "loop_ok 4 results ext"
    and cons: "list_all (pass_consistent eng) ext"
    and ch: "chained (results1, w1) ext (results, w')"
    by auto
  from f l have "stage_all eng w = Inr (results, w', ext)" by (simp add: stage_all_def)
  moreover from ok have "total_passes ext \<le> 5"
    "total_passes ext < 5 \<longrightarrow>
          entities_with_fk_errors results = []
          \<or> (ext \<noteq> [] \<and> total_errors_before (last ext) \<le> total_errors_after (last ext))"
    "\<forall>r \<in> set ext. restaged r \<noteq> []"
    "\<forall>r \<in> set (butlast ext). total_errors_after r < total_errors_before r"
    by (auto simp: loop_ok_def total_passes_def)
  moreover note cons
  moreover from ch f
  have "chained (foldl (stage_first eng) ([], w) (schema_ingestionOrder eng)) ext (results, w')"
    by simp
  ultimately show ?thesis by blast
qed

lemmas staging_eval =
  stage_all_def example_engine_def stage_first_def entity_to_config_def restage_loop.simps
  entities_with_fk_errors_def max_passes_def startswith_def Let_def

theorem stage_all_passes_witness:
  "\<exists>results w' passes.
     stage_all example_engine 0 = Inr (results, w', passes)
     \<and> total_passes passes = 2
     \<and> map restaged passes = [[''SERVICEORDERS'']]
     \<and> map total_errors_before passes = [sum_error_count (results_before (hd passes)) [''SERVICEORDERS'']]
     \<and> map total_errors_before passes = [1]
     \<and> map total_errors_after passes = [0]
     \<and> entities_with_fk_errors results = []"
proof -
  let ?before = "[(''VENDORS'', Staged ''VENDORS'' ''SO'' 1 [] (Some ''staging/VENDORS.csv'')),
           (''SERVICEORDERS'',
            Staged ''SERVICEORDERS'' ''SO'' 0
              [\<lparr>rec_row_num = 1, rec_excel_row = Map.empty,
                rec_errors = [''Could not resolve FK 'VENDOR_ID' '']\<rparr>] None)]"
  let ?after = "[(''VENDORS'', Staged ''VENDORS'' ''SO'' 1 [] (Some ''staging/VENDORS.csv'')),
           (''SERVICEORDERS'',
            Staged ''SERVICEORDERS'' ''SO'' 1 [] (Some ''staging/SERVICEORDERS.csv''))]"
  let ?rec = "\<lparr>pass_number = 2, restaged = [''SERVICEORDERS''],
            total_errors_before = 1, total_errors_after = 0,
            results_before = ?before, world_before = 0 :: nat,
            results_after = ?after, world_after = 1\<rparr>"
  have run: "stage_all example_engine 0 = Inr (?after, 1, [?rec])"
    by (simp add: staging_eval)
  from stage_all_passes [of example_engine 0] obtain results w' passes where
    s: "stage_all example_engine 0 = Inr (results, w', passes)"
    and early: "total_passes passes < 5 \<longrightarrow>
          entities_with_fk_errors results = []
          \<or> (passes \<noteq> [] \<and> total_errors_before (last passes) \<le> total_errors_after (last passes))"
    and cons: "list_all (pass_consistent example_engine) passes"
    by blast
  from s [unfolded run] have p: "passes = [?rec]"
    by auto
  then have "total_passes passes = 2" "total_passes passes < 5"
    "\<not> total_errors_before (last passes) \<le> total_errors_after (last passes)"
    by (simp_all add: total_passes_def)
  with early have e: "entities_with_fk_errors results = []" by blast
  from cons p have "pass_consistent example_engine ?rec" by simp
  then have "total_errors_before ?rec = sum_error_count (results_before ?rec) (restaged ?rec)"
    by (rule pass_consistent_totals)
  then have "1 = sum_error_count ?before [''SERVICEORDERS'']" by simp
  with p have t: "map total_errors_before passes
                  = [sum_error_count (results_before (hd passes)) [''SERVICEORDERS'']]"
    by simp
  from s p e t \<open>total_passes passes = 2\<close> show ?thesis by simp
qed

section \<open>Master data is staged once\<close>

lemma transform_step_untouched:
  assumes "should_deduplicate entity" "untouched existing keys st"
    and "\<exists>t errs. transform_row (fst item) (snd item) existing = (Some t, errs) \<and> t \<noteq> []
                  \<and> store_key (get_dedup_keys entity) t \<in> keys"
  shows "untouched existing keys (transform_step transform_row entity cfg st item)"
proof -
  from assms(3) obtain t errs where
    t: "transform_row (fst item) (snd item) existing = (Some t, errs)" "t \<noteq> []"
       "store_key (get_dedup_keys entity) t \<in> keys" by blast
  have run: "untouched existing keys
               (case transform_row (fst item) (snd item) (all_rows st') of
                  (Some t, errs) \<Rightarrow>
                    if t \<noteq> [] then accept_row entity t st'
                    else reject_row entity (fst item) (snd item) errs st'
                | (None, errs) \<Rightarrow> reject_row entity (fst item) (snd item) errs st')"
    if "untouched existing keys st'" for st'
    using that t assms(1) by (simp add: untouched_def accept_row_def)
  have "untouched existing keys (st\<lparr>seen_keys := insert k (seen_keys st)\<rparr>)" for k
    using assms(2) by (simp add: untouched_def)
  from run [OF this] assms(1,2) show ?thesis
    by (simp add: transform_step_def Let_def)
qed

lemma foldl_transform_step_untouched:
  assumes "should_deduplicate entity" "untouched existing keys st"
    and "\<forall>item \<in> set items.
           \<exists>t errs. transform_row (fst item) (snd item) existing = (Some t, errs) \<and> t \<noteq> []
                  \<and> store_key (get_dedup_keys entity) t \<in> keys"
  shows "untouched existing keys (foldl (transform_step transform_row entity cfg) st items)"
  using assms(2,3)
proof (induction items arbitrary: st)
  case Nil
  then show ?case by simp
next
  case (Cons item items)
  from Cons.prems have
    "\<exists>t errs. transform_row (fst item) (snd item) existing = (Some t, errs) \<and> t \<noteq> []
                  \<and> store_key (get_dedup_keys entity) t \<in> keys" by simp
  with assms(1) Cons.prems(1)
  have "untouched existing keys (transform_step transform_row entity cfg st item)"
    by (rule transform_step_untouched)
  moreover from Cons.prems have "\<forall>item \<in> set items.
           \<exists>t errs. transform_row (fst item) (snd item) existing = (Some t, errs) \<and> t \<noteq> []
                  \<and> store_key (get_dedup_keys entity) t \<in> keys" by simp
  ultimately show ?case using Cons.IH by simp
qed

text \<open>
  C6. For a master-data entity (one of \<open>DEDUP_ENTITIES\<close>) with a CSV file in the schema:
  if every source row, transformed against the rows of the persisted store, gives a row
  whose natural key (trimmed, upper-cased) is the key of a row of the store, then
  \<open>transform_entity\<close> returns no staged row and no error record. Each row is dropped
  silently: before the transformation when its key is blank or repeats a key of the batch,
  after it otherwise.
\<close>

theorem transform_entity_idempotent:
  assumes "should_deduplicate entity"
    and "entities sch entity = Some entity_info" "ent_csv entity_info = Some csv_info"
    and "\<forall>item \<in> set (enumerate 1 excel_rows).
           \<exists>t errs. transform_row (fst item) (snd item)
                       (load_existing_csv files (info_file csv_info)) = (Some t, errs)
                  \<and> t \<noteq> []
                  \<and> store_key (get_dedup_keys entity) t
                      \<in> set (map (store_key (get_dedup_keys entity))
                                (load_existing_csv files (info_file csv_info)))"
  shows "transform_entity transform_row sch files entity cfg excel_rows = Inr ([], [])"
proof (cases "info_file csv_info = []")
  case True
  with assms(2,3) show ?thesis by (simp add: transform_entity_def)
next
  case False
  let ?existing = "load_existing_csv files (info_file csv_info)"
  let ?keys = "set (map (store_key (get_dedup_keys entity)) ?existing)"
  let ?init = "\<lparr>valid_rows = [], error_records = [], all_rows = ?existing,
                 existing_key_set = ?keys, seen_keys = {}\<rparr>"
  have "untouched ?existing ?keys ?init" by (simp add: untouched_def)
  with assms(1)
  have "untouched ?existing ?keys
          (foldl (transform_step transform_row entity cfg) ?init (enumerate 1 excel_rows))"
    using assms(4) by (rule foldl_transform_step_untouched)
  with False assms(1,2,3) show ?thesis
    by (simp add: transform_entity_def untouched_def Let_def)
qed

lemmas transform_eval =
  clusters_schema_def clusters_files_def clusters_config_def clusters_transform_row_def
  load_existing_csv_def should_deduplicate_def get_dedup_keys_def DEDUP_ENTITIES_def
  store_key_def dict_get_def py_strip_def is_space_def py_upper_def upper_char_def
  ascii_lowercase_def ascii_uppercase_def

theorem transform_entity_idempotent_witness:
  "transform_entity clusters_transform_row clusters_schema clusters_files ''CLUSTERS''
     clusters_config [[''Cluster'' \<mapsto> PStr ''north ''], [''Cluster'' \<mapsto> PStr ''NORTH'']]
   = Inr ([], [])"
proof -
  let ?info = "\<lparr>ent_fields = [\<lparr>field_name = ''ID'', field_type = ''UUID'', field_key = True\<rparr>,
                       \<lparr>field_name = ''NAME'', field_type = ''String(100)'', field_key = False\<rparr>],
         ent_associations = [], ent_uniqueConstraints = [],
         ent_csv = Some \<lparr>info_file = ''data/CCTECH.DRS.ENTITIES-CLUSTERS.csv'',
                         info_columns = [''ID'', ''NAME'']\<rparr>\<rparr>"
  let ?csv = "\<lparr>info_file = ''data/CCTECH.DRS.ENTITIES-CLUSTERS.csv'',
               info_columns = [''ID'', ''NAME'']\<rparr>"
  let ?rows = "[[''Cluster'' \<mapsto> PStr ''north ''], [''Cluster'' \<mapsto> PStr ''NORTH'']]"
  have d: "should_deduplicate ''CLUSTERS''"
    by (simp add: should_deduplicate_def DEDUP_ENTITIES_def)
  have e: "entities clusters_schema ''CLUSTERS'' = Some ?info"
    by (simp add: clusters_schema_def)
  have c: "ent_csv ?info = Some ?csv" by simp
  have items: "enumerate 1 ?rows = [(1, [''Cluster'' \<mapsto> PStr ''north '']),
                                    (2, [''Cluster'' \<mapsto> PStr ''NORTH''])]"
    by (simp add: enumerate_eq_zip upt_rec)
  have h: "\<forall>item \<in> set (enumerate 1 ?rows).
           \<exists>t errs. clusters_transform_row (fst item) (snd item)
                       (load_existing_csv clusters_files (info_file ?csv)) = (Some t, errs)
                  \<and> t \<noteq> []
                  \<and> store_key (get_dedup_keys ''CLUSTERS'') t
                      \<in> set (map (store_key (get_dedup_keys ''CLUSTERS''))
                                (load_existing_csv clusters_files (info_file ?csv)))"
    unfolding items by (simp add: transform_eval)
  from d e c h show ?thesis by (rule transform_entity_idempotent)
qed

end
